theory Spec2Isabelle
  imports Complex_Main "HOL-Library.Log_Nat"
begin

section \<open>Numbers\<close>

text \<open>
  A JavaScript number is an IEEE 754 double: \<^verbatim>\<open>NaN\<close>, an infinity, or a finite value
  \<open>Fin x\<close>.  Zero has no sign here: \<open>Fin 0\<close> stands for \<^verbatim>\<open>+0\<close>.
\<close>

datatype jsnum = NaN | PosInf | NegInf | Fin real

text \<open>
  Rounding of a real number to the nearest double, ties to the even significand.
  \<open>bitlen n\<close> is the number of binary digits of \<open>n\<close> and \<open>expo a\<close>, for \<open>a > 0\<close>,
  the exponent \<open>e\<close> with \<open>2^e \<le> a < 2^(e + 1)\<close>.  A double has a significand of 53 bits
  and an exponent of at least -1022 (below it the numbers are subnormal, spaced
  \<open>2^-1074\<close> apart); a result of magnitude \<open>2^1024\<close> or more is an infinity.
\<close>

definition expo :: "real \<Rightarrow> int" where
  "expo a = (if a \<ge> 1 then bitlen \<lfloor>a\<rfloor> - 1 else - bitlen (\<lceil>1 / a\<rceil> - 1))"

definition pow2 :: "int \<Rightarrow> real" where
  "pow2 e = (if e \<ge> 0 then 2 ^ nat e else 1 / 2 ^ nat (- e))"

definition roundEven :: "real \<Rightarrow> int" where
  "roundEven m =
     (let f = \<lfloor>m\<rfloor>; d = m - of_int f
      in if d < 1 / 2 then f else if d > 1 / 2 then f + 1
         else if even f then f else f + 1)"

definition double :: "real \<Rightarrow> jsnum" where
  "double x =
     (if x = 0 then Fin 0
      else let a = \<bar>x\<bar>;
               e = max (expo a) (- 1022);
               u = pow2 (e - 52);
               r = of_int (roundEven (a / u)) * u
           in if r \<ge> 2 ^ 1024 then (if x > 0 then PosInf else NegInf)
              else Fin (if x > 0 then r else - r))"

text \<open>
  The arithmetic of the language on doubles: \<^verbatim>\<open>*\<close>, \<^verbatim>\<open>-\<close>, \<^verbatim>\<open>/\<close>,
  \<^verbatim>\<open>Math.max\<close>, \<^verbatim>\<open>Math.min\<close>, \<^verbatim>\<open>Math.floor\<close> and \<^verbatim>\<open><=\<close>.  An operation on finite
  numbers rounds its exact result; \<^verbatim>\<open>Math.max\<close>, \<^verbatim>\<open>Math.min\<close> and \<^verbatim>\<open>Math.floor\<close>
  are exact.
\<close>

fun jsMul :: "jsnum \<Rightarrow> jsnum \<Rightarrow> jsnum" where
  "jsMul (Fin x) (Fin y) = double (x * y)"
| "jsMul NaN b = NaN"
| "jsMul a NaN = NaN"
| "jsMul PosInf (Fin y) = (if y = 0 then NaN else if y > 0 then PosInf else NegInf)"
| "jsMul NegInf (Fin y) = (if y = 0 then NaN else if y > 0 then NegInf else PosInf)"
| "jsMul (Fin x) PosInf = (if x = 0 then NaN else if x > 0 then PosInf else NegInf)"
| "jsMul (Fin x) NegInf = (if x = 0 then NaN else if x > 0 then NegInf else PosInf)"
| "jsMul PosInf PosInf = PosInf"
| "jsMul PosInf NegInf = NegInf"
| "jsMul NegInf PosInf = NegInf"
| "jsMul NegInf NegInf = PosInf"

fun jsSub :: "jsnum \<Rightarrow> jsnum \<Rightarrow> jsnum" where
  "jsSub (Fin x) (Fin y) = double (x - y)"
| "jsSub NaN b = NaN"
| "jsSub a NaN = NaN"
| "jsSub PosInf PosInf = NaN"
| "jsSub NegInf NegInf = NaN"
| "jsSub PosInf b = PosInf"
| "jsSub NegInf b = NegInf"
| "jsSub (Fin x) PosInf = NegInf"
| "jsSub (Fin x) NegInf = PosInf"

fun jsDiv :: "jsnum \<Rightarrow> jsnum \<Rightarrow> jsnum" where
  "jsDiv (Fin x) (Fin y) =
     (if y = 0 then (if x = 0 then NaN else if x > 0 then PosInf else NegInf)
      else double (x / y))"
| "jsDiv NaN b = NaN"
| "jsDiv a NaN = NaN"
| "jsDiv (Fin x) b = Fin 0"
| "jsDiv PosInf (Fin y) = (if y \<ge> 0 then PosInf else NegInf)"
| "jsDiv NegInf (Fin y) = (if y \<ge> 0 then NegInf else PosInf)"
| "jsDiv a b = NaN"

fun jsMax :: "jsnum \<Rightarrow> jsnum \<Rightarrow> jsnum" where
  "jsMax (Fin x) (Fin y) = Fin (max x y)"
| "jsMax NaN b = NaN"
| "jsMax a NaN = NaN"
| "jsMax PosInf b = PosInf"
| "jsMax a PosInf = PosInf"
| "jsMax NegInf b = b"
| "jsMax a NegInf = a"

fun jsMin :: "jsnum \<Rightarrow> jsnum \<Rightarrow> jsnum" where
  "jsMin (Fin x) (Fin y) = Fin (min x y)"
| "jsMin NaN b = NaN"
| "jsMin a NaN = NaN"
| "jsMin NegInf b = NegInf"
| "jsMin a NegInf = NegInf"
| "jsMin PosInf b = b"
| "jsMin a PosInf = a"

fun jsFloor :: "jsnum \<Rightarrow> jsnum" where
  "jsFloor (Fin x) = Fin (of_int \<lfloor>x\<rfloor>)"
| "jsFloor a = a"


text \<open>
  \<^verbatim>\<open>function clamp(n, a, b){ return Math.max(a, Math.min(b, n)); }\<close> on all numbers,
  and on finite numbers, where it is the same function of the values.
\<close>

definition clampNum :: "jsnum \<Rightarrow> jsnum \<Rightarrow> jsnum \<Rightarrow> jsnum" where
  "clampNum n a b = jsMax a (jsMin b n)"

definition clamp :: "real \<Rightarrow> real \<Rightarrow> real \<Rightarrow> real" where
  "clamp n a b = max a (min b n)"

section \<open>Encoding planner\<close>

record settings =
  preset :: string
  scaleFilter :: "string option"

text \<open>On a finite number \<^verbatim>\<open>x||0\<close> is \<open>x\<close> itself: only zero is falsy.\<close>

definition orZero :: "real \<Rightarrow> real" where
  "orZero x = (if x = 0 then 0 else x)"

definition autoSettings :: "real \<Rightarrow> real \<Rightarrow> real \<Rightarrow> settings" where
  "autoSettings width height durationSec =
     (let maxDim = max (orZero width) (orZero height);
          preset = (if durationSec > 30 * 60 then ''veryfast''
                    else if durationSec > 15 * 60 then ''fast''
                    else if durationSec > 7 * 60 then ''medium''
                    else ''slow'');
          scaleFilter = (if maxDim \<ge> 3840 then Some ''scale=1920:-2'' else None)
      in \<lparr>preset = preset, scaleFilter = scaleFilter\<rparr>)"

text \<open>
  The speed tier of an encoder preset name: a larger number is a faster encode.
  Only the four names that \<open>autoSettings\<close> produces are ranked.
\<close>

definition tier :: "string \<Rightarrow> nat" where
  "tier p = (if p = ''veryfast'' then 3 else if p = ''fast'' then 2
             else if p = ''medium'' then 1 else 0)"

text \<open>
  The three local constants of \<^verbatim>\<open>computeBitrates\<close>, one definition per line of the
  source.  The constants 1024, 8 and 1000 are doubles; the literal \<^verbatim>\<open>0.70\<close> is the double
  nearest to 7/10.
\<close>

definition totalBits :: "jsnum \<Rightarrow> jsnum" where
  "totalBits targetMB = jsMul (jsMul (jsMul targetMB (Fin 1024)) (Fin 1024)) (Fin 8)"

definition audioBits :: "jsnum \<Rightarrow> jsnum \<Rightarrow> jsnum" where
  "audioBits audioKbps durationSec = jsMul (jsMul audioKbps (Fin 1000)) durationSec"

definition videoBits :: "jsnum \<Rightarrow> jsnum \<Rightarrow> jsnum \<Rightarrow> jsnum" where
  "videoBits targetMB durationSec audioKbps =
     jsMax (jsSub (totalBits targetMB) (audioBits audioKbps durationSec))
           (jsMul (totalBits targetMB) (double (7 / 10)))"

text \<open>\<^verbatim>\<open>computeBitrates\<close> returns the field \<^verbatim>\<open>videoKbps\<close>.\<close>

definition computeBitrates :: "jsnum \<Rightarrow> jsnum \<Rightarrow> jsnum \<Rightarrow> jsnum" where
  "computeBitrates targetMB durationSec audioKbps =
     (let videoBps = jsDiv (videoBits targetMB durationSec audioKbps) durationSec
      in clampNum (jsFloor (jsDiv videoBps (Fin 1000))) (Fin 200) (Fin 50000))"

section \<open>Job registry\<close>

datatype status = Queued | Running | Done | Error

text \<open>
  The human-readable message of a job, one constructor per text the program writes.
  \<open>MsgEncoding pct\<close> stands for the template \<^verbatim>\<open>Encoding... ${pct.toFixed(1)}%\<close> and
  \<open>MsgEmpty\<close> for the empty string; the rendering of the texts is not modelled.
\<close>

datatype message =
  MsgQueued | MsgAnalyzing | MsgPass1 | MsgPass2 | MsgEncoding real | MsgDone | MsgError | MsgEmpty

text \<open>
  What an exception thrown inside \<^verbatim>\<open>twoPassEncode\<close> carries: a failed probe, the
  \<^verbatim>\<open>Could not read duration.\<close> error, a process that closed with a code other than 0
  (\<open>None\<close> is the code \<^verbatim>\<open>null\<close> of a process ended by a signal), a failed
  \<^verbatim>\<open>fs.statSync\<close>.
\<close>

datatype failure = ProbeFailed | UnusableDuration | ProcessFailed string "nat option" | StatFailed

text \<open>
  A job object.  Every property may be absent (\<open>None\<close>), since \<^verbatim>\<open>setJob\<close> builds records
  by merging patches.  A patch is a job object too: its absent properties are left as they are.
\<close>

record job =
  status :: "status option"
  percent :: "real option"
  message :: "message option"
  inputPath :: "string option"
  outputPath :: "string option"
  outputBytes :: "nat option"
  error :: "failure option"
  createdAt :: "int option"

definition emptyJob :: job where
  "emptyJob = \<lparr>status = None, percent = None, message = None, inputPath = None,
               outputPath = None, outputBytes = None, error = None, createdAt = None\<rparr>"

definition orElse :: "'a option \<Rightarrow> 'a option \<Rightarrow> 'a option" where
  "orElse p c = (case p of Some v \<Rightarrow> Some v | None \<Rightarrow> c)"

text \<open>The object spread \<^verbatim>\<open>{ ...cur, ...patch }\<close>.\<close>

definition spread :: "job \<Rightarrow> job \<Rightarrow> job" where
  "spread cur patch =
     \<lparr>status = orElse (status patch) (status cur),
      percent = orElse (percent patch) (percent cur),
      message = orElse (message patch) (message cur),
      inputPath = orElse (inputPath patch) (inputPath cur),
      outputPath = orElse (outputPath patch) (outputPath cur),
      outputBytes = orElse (outputBytes patch) (outputBytes cur),
      error = orElse (error patch) (error cur),
      createdAt = orElse (createdAt patch) (createdAt cur)\<rparr>"

text \<open>
  The registry \<^verbatim>\<open>jobs\<close> is a JavaScript \<^verbatim>\<open>Map\<close>: an association list in insertion
  order, where setting an existing key keeps its place.
\<close>

type_synonym registry = "(string \<times> job) list"

fun mapSet :: "string \<Rightarrow> job \<Rightarrow> registry \<Rightarrow> registry" where
  "mapSet k v [] = [(k, v)]"
| "mapSet k v ((k', v') # rest) =
     (if k' = k then (k, v) # rest else (k', v') # mapSet k v rest)"

definition setJob :: "string \<Rightarrow> job \<Rightarrow> registry \<Rightarrow> registry" where
  "setJob jobId patch jobs =
     (let cur = (case map_of jobs jobId of Some j \<Rightarrow> j | None \<Rightarrow> emptyJob)
      in mapSet jobId (spread cur patch) jobs)"

section \<open>Media analyzer\<close>

text \<open>
  The scalar JSON values a property of the probe report can hold.  \<open>truthy\<close> is
  JavaScript's truthiness and \<open>Number\<close> the conversion \<^verbatim>\<open>Number(v)\<close>; the conversion
  of a string is the parameter \<open>str\<close>, since it is the language's and not the program's.
\<close>

datatype json = JNull | JBool bool | JNum real | JStr string

definition truthy :: "json \<Rightarrow> bool" where
  "truthy v = (case v of JNull \<Rightarrow> False | JBool b \<Rightarrow> b | JNum x \<Rightarrow> x \<noteq> 0 | JStr s \<Rightarrow> s \<noteq> [])"

definition Number :: "(string \<Rightarrow> jsnum) \<Rightarrow> json \<Rightarrow> jsnum" where
  "Number str v = (case v of JNull \<Rightarrow> Fin 0 | JBool b \<Rightarrow> Fin (if b then 1 else 0)
                   | JNum x \<Rightarrow> Fin x | JStr s \<Rightarrow> str s)"

record stream =
  codec_type :: "string option"
  width :: "real option"
  height :: "real option"

record format =
  duration :: "json option"

record probe =
  format :: "format option"
  streams :: "stream list option"

text \<open>\<^verbatim>\<open>probe?.format?.duration\<close>; \<open>None\<close> is \<^verbatim>\<open>undefined\<close>.\<close>

definition durationField :: "probe \<Rightarrow> json option" where
  "durationField probe = (case format probe of None \<Rightarrow> None | Some f \<Rightarrow> duration f)"

definition parseDurationSeconds :: "(string \<Rightarrow> jsnum) \<Rightarrow> probe \<Rightarrow> real" where
  "parseDurationSeconds str probe =
     (let operand = (case durationField probe of None \<Rightarrow> JNum 0
                     | Some v \<Rightarrow> if truthy v then v else JNum 0);
          d = Number str operand
      in case d of Fin x \<Rightarrow> (if x > 0 then x else 0) | _ \<Rightarrow> 0)"

definition getVideoStream :: "probe \<Rightarrow> stream option" where
  "getVideoStream probe =
     find (\<lambda>s. codec_type s = Some ''video'')
          (case streams probe of None \<Rightarrow> [] | Some ss \<Rightarrow> ss)"

section \<open>Progress extractor\<close>

text \<open>
  The regular expression \<^verbatim>\<open>/time=(\d+):(\d+):(\d+)\.(\d+)/\<close>.  A group \<^verbatim>\<open>\d+\<close> is
  greedy and the character after each group is not a digit, so backtracking into a group
  never helps: a group takes the longest run of digits, which must not be empty.
  \<open>timeRe\<close> is \<^verbatim>\<open>chunk.match(timeRe)\<close>: the four groups of the leftmost match.
\<close>

definition isDigit :: "char \<Rightarrow> bool" where
  "isDigit c = (c \<in> set ''0123456789'')"

definition digits :: "string \<Rightarrow> (string \<times> string) option" where
  "digits s = (if takeWhile isDigit s = [] then None
               else Some (takeWhile isDigit s, dropWhile isDigit s))"

definition literal :: "string \<Rightarrow> string \<Rightarrow> string option" where
  "literal p s = (if take (length p) s = p then Some (drop (length p) s) else None)"

definition matchAt :: "string \<Rightarrow> (string \<times> string \<times> string \<times> string) option" where
  "matchAt s =
     Option.bind (literal ''time='' s) (\<lambda>s1.
     Option.bind (digits s1) (\<lambda>(g1, s2).
     Option.bind (literal '':'' s2) (\<lambda>s3.
     Option.bind (digits s3) (\<lambda>(g2, s4).
     Option.bind (literal '':'' s4) (\<lambda>s5.
     Option.bind (digits s5) (\<lambda>(g3, s6).
     Option.bind (literal ''.'' s6) (\<lambda>s7.
     Option.bind (digits s7) (\<lambda>(g4, s8).
     Some (g1, g2, g3, g4)))))))))"

fun timeRe :: "string \<Rightarrow> (string \<times> string \<times> string \<times> string) option" where
  "timeRe [] = None"
| "timeRe (c # cs) = (case matchAt (c # cs) of Some m \<Rightarrow> Some m | None \<Rightarrow> timeRe cs)"

text \<open>\<^verbatim>\<open>Number(m[i])\<close> on a group of decimal digits.\<close>

definition digitVal :: "char \<Rightarrow> nat" where
  "digitVal c = of_char c - 48"

definition decimal :: "string \<Rightarrow> nat" where
  "decimal ds = foldl (\<lambda>n c. 10 * n + digitVal c) 0 ds"

text \<open>The elapsed time \<^verbatim>\<open>t\<close> of a match.\<close>

definition elapsed :: "string \<times> string \<times> string \<times> string \<Rightarrow> real" where
  "elapsed m =
     (case m of (g1, g2, g3, g4) \<Rightarrow>
        let hh = real (decimal g1); mm = real (decimal g2);
            ss = real (decimal g3); cs = real (decimal g4)
        in hh * 3600 + mm * 60 + ss + (cs / 100))"

text \<open>
  One call of the closure that \<^verbatim>\<open>makeProgressParser(durationSec, jobId)\<close> returns.  The
  closure's variable \<^verbatim>\<open>lastPct\<close> is passed in and returned; the second component is the
  patch given to \<^verbatim>\<open>setJob\<close>, or \<open>None\<close> when the call publishes nothing.
\<close>

definition progressParser :: "real \<Rightarrow> real \<Rightarrow> string \<Rightarrow> real \<times> job option" where
  "progressParser durationSec lastPct chunk =
     (case timeRe chunk of None \<Rightarrow> (lastPct, None) | Some m \<Rightarrow>
        if durationSec = 0 then (lastPct, None)
        else let t = elapsed m;
                 pct = clamp ((t / durationSec) * 100) 0 100
             in if pct \<ge> lastPct
                then (pct, Some (emptyJob\<lparr>percent := Some pct, message := Some (MsgEncoding pct)\<rparr>))
                else (lastPct, None))"

text \<open>The closure acting on the registry: its state is \<^verbatim>\<open>lastPct\<close> and the registry.\<close>

definition feed :: "real \<Rightarrow> string \<Rightarrow> string \<Rightarrow> real \<times> registry \<Rightarrow> real \<times> registry" where
  "feed durationSec jobId chunk st =
     (case progressParser durationSec (fst st) chunk of
        (lastPct, None) \<Rightarrow> (lastPct, snd st)
      | (lastPct, Some patch) \<Rightarrow> (lastPct, setJob jobId patch (snd st)))"

text \<open>The percents one parser instance publishes when fed the chunks in order.\<close>

fun published :: "real \<Rightarrow> real \<Rightarrow> string list \<Rightarrow> real list" where
  "published durationSec lastPct [] = []"
| "published durationSec lastPct (chunk # chunks) =
     (case progressParser durationSec lastPct chunk of
        (lastPct', None) \<Rightarrow> published durationSec lastPct' chunks
      | (lastPct', Some patch) \<Rightarrow>
          (case percent patch of None \<Rightarrow> [] | Some pct \<Rightarrow> [pct])
          @ published durationSec lastPct' chunks)"

section \<open>Encode orchestrator\<close>

text \<open>
  An argument of a spawned process: a string, or the template \<^verbatim>\<open>${n}k\<close> of a bitrate
  (the rendering of the number is not modelled).
\<close>

datatype arg = Str string | Kbps jsnum

text \<open>
  What the program does to the world outside its variables, in order: a call of
  \<^verbatim>\<open>setJob\<close>, the probe of a file by \<^verbatim>\<open>ffprobeJson\<close>, a process started by
  \<^verbatim>\<open>run\<close>, a file deleted by \<^verbatim>\<open>fs.unlinkSync\<close> (a failure to delete is swallowed).
\<close>

datatype effect = SetJob string job | Ffprobe string | Spawn string "arg list" | Unlink string

text \<open>
  What the outside world answers during one job: the outcome of the probe, for each pass the
  chunks the process writes to its diagnostic stream and the code it closes with, and the
  size \<^verbatim>\<open>fs.statSync\<close> finds for the output (\<open>None\<close>: it throws).  Both
  processes close; what is observed while a process still runs is a prefix of the effects.
\<close>

record world =
  probeOutcome :: "failure + probe"
  pass1 :: "string list \<times> nat option"
  pass2 :: "string list \<times> nat option"
  statOutcome :: "nat option"

text \<open>
  The calls of \<^verbatim>\<open>setJob\<close> that one parser instance makes while a process writes the chunks.
\<close>

fun feedAll :: "real \<Rightarrow> string \<Rightarrow> real \<Rightarrow> string list \<Rightarrow> effect list" where
  "feedAll durationSec jobId lastPct [] = []"
| "feedAll durationSec jobId lastPct (chunk # chunks) =
     (case progressParser durationSec lastPct chunk of
        (lastPct', None) \<Rightarrow> feedAll durationSec jobId lastPct' chunks
      | (lastPct', Some patch) \<Rightarrow> SetJob jobId patch # feedAll durationSec jobId lastPct' chunks)"

text \<open>
  \<^verbatim>\<open>run(cmd, args, { onStdErr })\<close> with a fresh parser as the callback: the effects, and
  the error of the rejected promise when the process closes with a code other than 0.
\<close>

definition run :: "string \<Rightarrow> arg list \<Rightarrow> real \<Rightarrow> string \<Rightarrow> string list \<times> nat option
                   \<Rightarrow> effect list \<times> failure option" where
  "run cmd args durationSec jobId outcome =
     (Spawn cmd args # feedAll durationSec jobId 0 (fst outcome),
      if snd outcome = Some 0 then None else Some (ProcessFailed cmd (snd outcome)))"

definition workDir :: string where
  "workDir = ''/tmp/navine''"

text \<open>
  \<^verbatim>\<open>path.join(workDir, name)\<close> for a file name without separators or dots to normalise.
\<close>

definition pathJoin :: "string \<Rightarrow> string \<Rightarrow> string" where
  "pathJoin dir name = dir @ ''/'' @ name"

definition useScale :: "string \<Rightarrow> settings \<Rightarrow> arg list" where
  "useScale autoQuality auto =
     (case scaleFilter auto of
        Some f \<Rightarrow> if autoQuality = ''on'' \<and> f \<noteq> [] then [Str ''-vf'', Str f] else []
      | None \<Rightarrow> [])"

definition chosenPreset :: "string \<Rightarrow> settings \<Rightarrow> string" where
  "chosenPreset autoQuality auto = (if autoQuality = ''on'' then preset auto else ''medium'')"

definition vCodec :: "string \<Rightarrow> string" where
  "vCodec codec = (if codec = ''h265'' then ''libx265'' else ''libx264'')"

text \<open>
  The plan of a job: what \<^verbatim>\<open>twoPassEncode\<close> computes between the probe and the first pass.
\<close>

record plan =
  planScale :: "arg list"
  planPreset :: string
  planVideoKbps :: jsnum
  planCodec :: string
  planPasslog :: string

text \<open>
  The width and height \<^verbatim>\<open>twoPassEncode\<close> reads from the first video stream: 0 when
  there is no video stream or the property is absent.
\<close>

definition videoWidth :: "probe \<Rightarrow> real" where
  "videoWidth probe =
     (case getVideoStream probe of None \<Rightarrow> 0
      | Some s \<Rightarrow> (case width s of None \<Rightarrow> 0 | Some x \<Rightarrow> x))"

definition videoHeight :: "probe \<Rightarrow> real" where
  "videoHeight probe =
     (case getVideoStream probe of None \<Rightarrow> 0
      | Some s \<Rightarrow> (case height s of None \<Rightarrow> 0 | Some x \<Rightarrow> x))"

definition makePlan :: "probe \<Rightarrow> real \<Rightarrow> string \<Rightarrow> real \<Rightarrow> string \<Rightarrow> real \<Rightarrow> string \<Rightarrow> plan" where
  "makePlan probe durationSec jobId targetMB codec audioKbps autoQuality =
     (let auto = autoSettings (videoWidth probe) (videoHeight probe) durationSec;
          videoKbps = computeBitrates (Fin targetMB) (Fin durationSec) (Fin audioKbps)
      in \<lparr>planScale = useScale autoQuality auto,
          planPreset = chosenPreset autoQuality auto,
          planVideoKbps = videoKbps,
          planCodec = vCodec codec,
          planPasslog = pathJoin workDir (''passlog-'' @ jobId)\<rparr>)"

definition p1Args :: "plan \<Rightarrow> string \<Rightarrow> arg list" where
  "p1Args pl inPath =
     [Str ''-y'', Str ''-i'', Str inPath] @ planScale pl @
     [Str ''-c:v'', Str (planCodec pl),
      Str ''-b:v'', Kbps (planVideoKbps pl),
      Str ''-preset'', Str (planPreset pl),
      Str ''-pass'', Str ''1'',
      Str ''-passlogfile'', Str (planPasslog pl),
      Str ''-an'',
      Str ''-f'', Str ''mp4'',
      Str ''/dev/null'']"

definition p2Args :: "plan \<Rightarrow> string \<Rightarrow> string \<Rightarrow> real \<Rightarrow> arg list" where
  "p2Args pl inPath outPath audioKbps =
     [Str ''-y'', Str ''-i'', Str inPath] @ planScale pl @
     [Str ''-c:v'', Str (planCodec pl),
      Str ''-b:v'', Kbps (planVideoKbps pl),
      Str ''-preset'', Str (planPreset pl),
      Str ''-pass'', Str ''2'',
      Str ''-passlogfile'', Str (planPasslog pl),
      Str ''-c:a'', Str ''aac'',
      Str ''-b:a'', Kbps (Fin audioKbps),
      Str ''-movflags'', Str ''+faststart'',
      Str outPath]"

text \<open>
  \<^verbatim>\<open>twoPassEncode\<close>: its effects in order, and the error it throws (\<open>None\<close>: it returns).
  An \<^verbatim>\<open>await\<close> that rejects ends the function with the effects so far.
\<close>

definition twoPassEncode ::
  "world \<Rightarrow> (string \<Rightarrow> jsnum) \<Rightarrow> string \<Rightarrow> string \<Rightarrow> string \<Rightarrow> real \<Rightarrow> string \<Rightarrow> real \<Rightarrow> string
   \<Rightarrow> effect list \<times> failure option" where
  "twoPassEncode wld str jobId inPath outPath targetMB codec audioKbps autoQuality =
     (let e0 = [SetJob jobId (emptyJob\<lparr>status := Some Running, percent := Some 1,
                                       message := Some MsgAnalyzing\<rparr>),
                Ffprobe inPath]
      in case probeOutcome wld of
           Inl f \<Rightarrow> (e0, Some f)
         | Inr probe \<Rightarrow>
            (let durationSec = parseDurationSeconds str probe
             in if durationSec = 0 then (e0, Some UnusableDuration)
                else
                 (let pl = makePlan probe durationSec jobId targetMB codec audioKbps autoQuality;
                      r1 = run ''ffmpeg'' (p1Args pl inPath) durationSec jobId (pass1 wld);
                      e1 = e0 @ [SetJob jobId (emptyJob\<lparr>message := Some MsgPass1,
                                                         percent := Some 2\<rparr>)] @ fst r1
                  in case snd r1 of
                       Some f \<Rightarrow> (e1, Some f)
                     | None \<Rightarrow>
                        (let r2 = run ''ffmpeg'' (p2Args pl inPath outPath audioKbps)
                                      durationSec jobId (pass2 wld);
                             e2 = e1 @ [SetJob jobId (emptyJob\<lparr>message := Some MsgPass2,
                                                                percent := Some 50\<rparr>)] @ fst r2
                         in case snd r2 of
                              Some f \<Rightarrow> (e2, Some f)
                            | None \<Rightarrow>
                               (case statOutcome wld of
                                  None \<Rightarrow> (e2, Some StatFailed)
                                | Some bytes \<Rightarrow>
                                   (e2 @ [SetJob jobId (emptyJob\<lparr>status := Some Done,
                                            percent := Some 100, message := Some MsgDone,
                                            outputBytes := Some bytes\<rparr>),
                                          Unlink (planPasslog pl @ ''-0.log''),
                                          Unlink (planPasslog pl @ ''-0.log.mbtree'')],
                                    None))))))"

section \<open>Routes\<close>

text \<open>
  The fields of a request to \<^verbatim>\<open>POST /api/start\<close>: the path of the uploaded file
  (\<open>None\<close>: no file), the numbers \<^verbatim>\<open>targetMB\<close> and \<^verbatim>\<open>audioKbps\<close> after their defaults
  and conversion, and the body's \<^verbatim>\<open>codec\<close> and \<^verbatim>\<open>autoQuality\<close> as sent.
\<close>

record request =
  reqFile :: "string option"
  reqTargetMB :: real
  reqCodec :: "string option"
  reqAudioKbps :: real
  reqAutoQuality :: "string option"

text \<open>A JSON body of a response; an absent property is \<open>None\<close>.\<close>

record progressJson =
  jsonStatus :: "string option"
  jsonPercent :: "real option"
  jsonMessage :: "message option"
  jsonError :: "failure option"
  jsonOutputMB :: "real option"

datatype response =
  JsonJobId nat string
| JsonProgress nat progressJson
| Send nat string
| Download "string option" string

definition statusName :: "status \<Rightarrow> string" where
  "statusName s = (case s of Queued \<Rightarrow> ''queued'' | Running \<Rightarrow> ''running''
                   | Done \<Rightarrow> ''done'' | Error \<Rightarrow> ''error'')"

text \<open>
  \<^verbatim>\<open>POST /api/start\<close> with \<open>jobId\<close> the identifier \<^verbatim>\<open>nanoid(10)\<close> returns: the response
  and the effects of the handler in order.
\<close>

definition startJob ::
  "world \<Rightarrow> (string \<Rightarrow> jsnum) \<Rightarrow> string \<Rightarrow> request \<Rightarrow> response \<times> effect list" where
  "startJob wld str jobId req =
     (let targetMB = reqTargetMB req;
          codec = (if reqCodec req = Some ''h265'' then ''h265'' else ''h264'');
          audioKbps = reqAudioKbps req;
          autoQuality = (if reqAutoQuality req = Some ''off'' then ''off'' else ''on'')
      in case reqFile req of
           None \<Rightarrow> (Send 400 ''No file uploaded.'', [])
         | Some inPath \<Rightarrow>
            (let outPath = pathJoin workDir (''out-'' @ jobId @ ''.mp4'');
                 queued = SetJob jobId (emptyJob\<lparr>status := Some Queued, percent := Some 0,
                            message := Some MsgQueued, inputPath := Some inPath,
                            outputPath := Some outPath\<rparr>);
                 r = twoPassEncode wld str jobId inPath outPath targetMB codec audioKbps autoQuality;
                 caught = (case snd r of
                             None \<Rightarrow> []
                           | Some f \<Rightarrow> [SetJob jobId (emptyJob\<lparr>status := Some Error,
                                          percent := Some 0, message := Some MsgError,
                                          error := Some f\<rparr>)])
             in (JsonJobId 200 jobId, [queued] @ fst r @ caught @ [Unlink inPath])))"

definition getProgress :: "registry \<Rightarrow> string \<Rightarrow> response" where
  "getProgress jobs jobId =
     (case map_of jobs jobId of
        None \<Rightarrow> JsonProgress 404 \<lparr>jsonStatus = Some ''missing'', jsonPercent = None,
                   jsonMessage = None, jsonError = None, jsonOutputMB = None\<rparr>
      | Some job \<Rightarrow> JsonProgress 200
          \<lparr>jsonStatus = map_option statusName (status job),
           jsonPercent = Some (case percent job of None \<Rightarrow> 0 | Some p \<Rightarrow> p),
           jsonMessage = Some (case message job of None \<Rightarrow> MsgEmpty | Some m \<Rightarrow> m),
           jsonError = error job,
           jsonOutputMB = (case outputBytes job of None \<Rightarrow> None
                           | Some b \<Rightarrow> if b \<noteq> 0 then Some (real b / (1024 * 1024)) else None)\<rparr>)"

definition getDownload :: "registry \<Rightarrow> string \<Rightarrow> response" where
  "getDownload jobs jobId =
     (case map_of jobs jobId of
        None \<Rightarrow> Send 404 ''Missing job.''
      | Some job \<Rightarrow>
          if status job \<noteq> Some Done then Send 409 ''Not ready.''
          else Download (outputPath job) (''navine-'' @ jobId @ ''.mp4''))"

section \<open>Replaying effects on the registry\<close>

fun exec :: "effect \<Rightarrow> registry \<Rightarrow> registry" where
  "exec (SetJob jobId patch) jobs = setJob jobId patch jobs"
| "exec (Ffprobe f) jobs = jobs"
| "exec (Spawn cmd args) jobs = jobs"
| "exec (Unlink f) jobs = jobs"

text \<open>The registry after each effect of a list, in order.\<close>

fun states :: "effect list \<Rightarrow> registry \<Rightarrow> registry list" where
  "states [] jobs = []"
| "states (e # es) jobs = exec e jobs # states es (exec e jobs)"

text \<open>The registry after all effects of a list.\<close>

fun execAll :: "effect list \<Rightarrow> registry \<Rightarrow> registry" where
  "execAll [] jobs = jobs"
| "execAll (e # es) jobs = execAll es (exec e jobs)"

definition statusOf :: "string \<Rightarrow> registry \<Rightarrow> status option" where
  "statusOf jobId jobs = (case map_of jobs jobId of None \<Rightarrow> None | Some j \<Rightarrow> status j)"

definition percentOf :: "string \<Rightarrow> registry \<Rightarrow> real option" where
  "percentOf jobId jobs = (case map_of jobs jobId of None \<Rightarrow> None | Some j \<Rightarrow> percent j)"

text \<open>The status changes the specification allows.\<close>

fun transition :: "status \<Rightarrow> status \<Rightarrow> bool" where
  "transition Queued Running = True"
| "transition Running Done = True"
| "transition Running Error = True"
| "transition a b = False"

text \<open>
  A step between two successive observations of a job's status: the status stays, or changes
  by an allowed transition.  \<open>None\<close> is a job without a status.
\<close>

fun statusStep :: "status option \<Rightarrow> status option \<Rightarrow> bool" where
  "statusStep (Some a) (Some b) = (a = b \<or> transition a b)"
| "statusStep None None = True"
| "statusStep a b = False"

text \<open>The statuses and the percents of a job after each effect of a list.\<close>

definition statusTrace :: "string \<Rightarrow> effect list \<Rightarrow> registry \<Rightarrow> status option list" where
  "statusTrace jobId es jobs = map (statusOf jobId) (states es jobs)"

definition percentTrace :: "string \<Rightarrow> effect list \<Rightarrow> registry \<Rightarrow> real option list" where
  "percentTrace jobId es jobs = map (percentOf jobId) (states es jobs)"

text \<open>The processes that the effects of a list start, in order: command and arguments.\<close>

fun spawns :: "effect list \<Rightarrow> (string \<times> arg list) list" where
  "spawns [] = []"
| "spawns (Spawn cmd args # es) = (cmd, args) # spawns es"
| "spawns (e # es) = spawns es"

section \<open>Reaper\<close>

text \<open>
  The callback of \<^verbatim>\<open>setInterval\<close> at the time \<open>now\<close> (milliseconds), on the registry and
  the set of files that exist.  The loop visits the entries in order; \<^verbatim>\<open>job.createdAt\<close> is
  falsy when absent or 0.
\<close>

fun reaperLoop :: "int \<Rightarrow> registry \<Rightarrow> string set \<Rightarrow> registry \<times> string set" where
  "reaperLoop now [] files = ([], files)"
| "reaperLoop now ((jobId, job) # rest) files =
     (let created = (case createdAt job of None \<Rightarrow> now | Some c \<Rightarrow> if c \<noteq> 0 then c else now);
          job' = job\<lparr>createdAt := Some created\<rparr>;
          ageMs = now - created
      in if (status job = Some Done \<or> status job = Some Error) \<and> ageMs > 30 * 60 * 1000
         then (let files' = (case outputPath job of None \<Rightarrow> files
                             | Some f \<Rightarrow> if f \<noteq> [] then files - {f} else files)
               in reaperLoop now rest files')
         else (let r = reaperLoop now rest files
               in ((jobId, job') # fst r, snd r)))"

definition reaper :: "int \<Rightarrow> registry \<times> string set \<Rightarrow> registry \<times> string set" where
  "reaper now st = reaperLoop now (fst st) (snd st)"

section \<open>Schedules\<close>

text \<open>
  The program runs the handlers of several jobs and the reaper on one event loop.  A step of
  the whole program is an effect of some handler or a tick of the reaper at some time; a
  schedule is any list of steps.  The state is the registry and the set of files that exist.
\<close>

datatype step = Eff effect | Tick int

text \<open>
  One step on the state: an effect acts on the registry, and a deletion on the files; a tick
  runs the reaper.
\<close>

fun stepSys :: "step \<Rightarrow> registry \<times> string set \<Rightarrow> registry \<times> string set" where
  "stepSys (Eff e) st = (exec e (fst st), (case e of Unlink f \<Rightarrow> snd st - {f} | _ \<Rightarrow> snd st))"
| "stepSys (Tick now) st = reaper now st"

text \<open>The states after each step of a schedule.\<close>

fun runSys :: "step list \<Rightarrow> registry \<times> string set \<Rightarrow> (registry \<times> string set) list" where
  "runSys [] st = []"
| "runSys (x # xs) st = stepSys x st # runSys xs (stepSys x st)"

text \<open>The patches that the effects of a list write to one job, in order.\<close>

fun patches :: "string \<Rightarrow> effect list \<Rightarrow> job list" where
  "patches i [] = []"
| "patches i (SetJob j p # es) = (if j = i then p # patches i es else patches i es)"
| "patches i (e # es) = patches i es"

fun effectsOf :: "step list \<Rightarrow> effect list" where
  "effectsOf [] = []"
| "effectsOf (Eff e # xs) = e # effectsOf xs"
| "effectsOf (Tick now # xs) = effectsOf xs"

text \<open>
  The patches still to come fit the status \<open>s\<close> of a job: a patch without a status comes
  only while the job is queued or running, a patch with a status creates the job as queued or
  makes an allowed transition, and nothing comes after done or error.
\<close>

fun phased :: "status option \<Rightarrow> job list \<Rightarrow> bool" where
  "phased s [] = True"
| "phased s (p # ps) =
     (case status p of
        None \<Rightarrow> (s = Some Queued \<or> s = Some Running) \<and> phased s ps
      | Some t \<Rightarrow> (case s of None \<Rightarrow> t = Queued | Some a \<Rightarrow> transition a t) \<and> phased (Some t) ps)"

text \<open>
  A step in the life of a job under a schedule: the status stays, the job is created as
  queued, the status changes by an allowed transition, or a job that is done or error is removed.
\<close>

fun lifeStep :: "status option \<Rightarrow> status option \<Rightarrow> bool" where
  "lifeStep None None = True"
| "lifeStep None (Some b) = (b = Queued)"
| "lifeStep (Some a) None = (a = Done \<or> a = Error)"
| "lifeStep (Some a) (Some b) = (a = b \<or> transition a b)"

text \<open>The statuses of a job after each step of a schedule.\<close>

definition lifeTrace :: "string \<Rightarrow> step list \<Rightarrow> registry \<times> string set \<Rightarrow> status option list" where
  "lifeTrace i xs st = map (\<lambda>st'. statusOf i (fst st')) (runSys xs st)"

section \<open>Auxiliary notions for the properties\<close>

text \<open>A group \<^verbatim>\<open>(\d+)\<close> of a match: a non-empty string of decimal digits.\<close>

definition digitGroup :: "string \<Rightarrow> bool" where
  "digitGroup g = (g \<noteq> [] \<and> list_all isDigit g)"

text \<open>The patch a parser publishes for a percent.\<close>

definition encodingPatch :: "real \<Rightarrow> job" where
  "encodingPatch pct = emptyJob\<lparr>percent := Some pct, message := Some (MsgEncoding pct)\<rparr>"

text \<open>
  The time \<^verbatim>\<open>created\<close> the reaper reads for a job at the time \<open>now\<close>, and its test for
  purging the job.
\<close>

definition anchor :: "int \<Rightarrow> job \<Rightarrow> int" where
  "anchor now job = (case createdAt job of None \<Rightarrow> now | Some c \<Rightarrow> if c \<noteq> 0 then c else now)"

definition purged :: "int \<Rightarrow> job \<Rightarrow> bool" where
  "purged now job \<longleftrightarrow>
     (status job = Some Done \<or> status job = Some Error) \<and> now - anchor now job > 30 * 60 * 1000"

text \<open>
  A sample job: a file of 100 seconds whose first pass reports the times 1 s and 100 s and
  whose second pass reports 10 s; both passes close with code 0.  \<open>sampleStr\<close> converts
  the duration string of the sample probe and no other string.
\<close>

definition sampleStr :: "string \<Rightarrow> jsnum" where
  "sampleStr s = (if s = ''100.000000'' then Fin 100 else NaN)"

definition sampleProbe :: probe where
  "sampleProbe = \<lparr>format = Some \<lparr>duration = Some (JStr ''100.000000'')\<rparr>,
                  streams = Some [\<lparr>codec_type = Some ''video'', width = Some 1920,
                                   height = Some 1080\<rparr>]\<rparr>"

definition sampleWorld :: world where
  "sampleWorld = \<lparr>probeOutcome = Inr sampleProbe,
                  pass1 = ([''frame=1 time=00:00:01.00 '', ''frame=9 time=00:01:40.00 ''], Some 0),
                  pass2 = ([''frame=1 time=00:00:10.00 ''], Some 0),
                  statOutcome = Some 1000\<rparr>"

definition sampleReq :: request where
  "sampleReq = \<lparr>reqFile = Some ''/tmp/navine/uploads/f'', reqTargetMB = 499, reqCodec = None,
                reqAudioKbps = 128, reqAutoQuality = None\<rparr>"

text \<open>
  A schedule of the sample job: the reaper ticks at minute 5, during pass 1, and at minute 40,
  after the job is done.
\<close>

definition sampleSchedule :: "step list" where
  "sampleSchedule =
     (let es = snd (startJob sampleWorld sampleStr ''j'' sampleReq)
      in map Eff (take 5 es) @ [Tick (5 * 60 * 1000)] @ map Eff (drop 5 es)
         @ [Tick (40 * 60 * 1000)])"

text \<open>
  A sample input of 600 seconds in portrait format: a probe report with an audio stream and a
  2160 x 3840 video stream, in the world of the sample job.  \<open>uhdStr\<close> converts the duration
  string of this report and no other string.
\<close>

definition uhd :: probe where
  "uhd = \<lparr>format = Some \<lparr>duration = Some (JStr ''600.0'')\<rparr>,
          streams = Some [\<lparr>codec_type = Some ''audio'', width = None, height = None\<rparr>,
                          \<lparr>codec_type = Some ''video'', width = Some 2160, height = Some 3840\<rparr>]\<rparr>"

definition uhdStr :: "string \<Rightarrow> jsnum" where
  "uhdStr s = (if s = ''600.0'' then Fin 600 else NaN)"

definition uhdWorld :: world where
  "uhdWorld = sampleWorld\<lparr>probeOutcome := Inr uhd\<rparr>"


text \<open>The bitrates of an argument list: the values given to \<^verbatim>\<open>-b:v\<close> and \<^verbatim>\<open>-b:a\<close>, in order.\<close>

fun bitrates :: "arg list \<Rightarrow> jsnum list" where
  "bitrates [] = []"
| "bitrates (Kbps n # as) = n # bitrates as"
| "bitrates (a # as) = bitrates as"

section \<open>Properties of the planner\<close>

subsection \<open>Rounding to a double\<close>

lemma pow2_powr: "pow2 e = 2 powr (real_of_int e)"
proof (cases "e \<ge> 0")
  case True
  then have "real_of_int e = real (nat e)" by simp
  then show ?thesis
    using True by (simp add: pow2_def powr_realpow del: of_nat_nat)
next
  case False
  then have "real_of_int e = - real (nat (- e))" by simp
  then show ?thesis
    using False by (simp add: pow2_def powr_minus_divide powr_realpow del: of_nat_nat)
qed


lemma pow2_less_iff: "pow2 e < pow2 e' \<longleftrightarrow> e < e'"
  by (simp add: pow2_powr)

lemma pow2_le_iff: "pow2 e \<le> pow2 e' \<longleftrightarrow> e \<le> e'"
  by (simp add: pow2_powr)

lemma pow2_nat: "0 \<le> e \<Longrightarrow> pow2 e = 2 ^ nat e"
  by (simp add: pow2_def)

lemma pow2_add: "pow2 (e + e') = pow2 e * pow2 e'"
  by (simp add: pow2_powr powr_add)

lemma expo_bounds:
  assumes "0 < a"
  shows "pow2 (expo a) \<le> a \<and> a < pow2 (expo a + 1)"
proof (cases "1 \<le> a")
  case True
  define n where "n = \<lfloor>a\<rfloor>"
  from True have n: "0 < n" by (simp add: n_def)
  define b where "b = bitlen n"
  from bitlen_bounds [OF n] have lo: "2 ^ nat (b - 1) \<le> n" and hi: "n < 2 ^ nat b"
    by (simp_all add: b_def)
  from n have b1: "1 \<le> b"
    unfolding b_def by (simp add: bitlen_alt_def)
  have e: "expo a = b - 1"
    using True by (simp add: expo_def n_def b_def)
  have "real_of_int (2 ^ nat (b - 1)) \<le> real_of_int n"
    using lo by (simp only: of_int_le_iff)
  also have "\<dots> \<le> a" by (simp add: n_def)
  finally have 1: "pow2 (b - 1) \<le> a"
    using b1 by (simp add: pow2_nat)
  from hi have "n + 1 \<le> 2 ^ nat b" by simp
  then have "real_of_int (n + 1) \<le> real_of_int (2 ^ nat b)"
    by (simp only: of_int_le_iff)
  moreover have "a < real_of_int (n + 1)"
    unfolding n_def by linarith
  ultimately have 2: "a < pow2 b"
    using b1 by (simp add: pow2_nat)
  from 1 2 show ?thesis by (simp add: e)
next
  case False
  define q where "q = 1 / a"
  from False assms have q1: "1 < q" by (simp add: q_def)
  define m where "m = \<lceil>q\<rceil> - 1"
  from q1 have m: "0 < m" unfolding m_def by linarith
  define b where "b = bitlen m"
  from bitlen_bounds [OF m] have lo: "2 ^ nat (b - 1) \<le> m" and hi: "m < 2 ^ nat b"
    by (simp_all add: b_def)
  from m have b1: "1 \<le> b"
    unfolding b_def by (simp add: bitlen_alt_def)
  have e: "expo a = - b"
    using False by (simp add: expo_def q_def m_def b_def)
  from hi have "m + 1 \<le> 2 ^ nat b" by simp
  then have "real_of_int (m + 1) \<le> real_of_int (2 ^ nat b)"
    by (simp only: of_int_le_iff)
  moreover have "q \<le> real_of_int (m + 1)"
    unfolding m_def by linarith
  ultimately have "q \<le> 2 ^ nat b" by simp
  then have "1 / a \<le> 2 ^ nat b" by (simp add: q_def)
  then have "1 \<le> 2 ^ nat b * a"
    using assms by (simp add: field_simps)
  then have 1: "pow2 (- b) \<le> a"
    using b1 by (simp add: pow2_def field_simps)
  from lo have "real_of_int (2 ^ nat (b - 1)) \<le> real_of_int m"
    by (rule of_int_le_iff [THEN iffD2])
  then have "2 ^ nat (b - 1) \<le> real_of_int m"
    by simp
  moreover have "real_of_int m < q"
    unfolding m_def by linarith
  ultimately have "2 ^ nat (b - 1) < q" by linarith
  then have "2 ^ nat (b - 1) * a < 1"
    using assms by (simp add: q_def field_simps)
  then have "a < 1 / 2 ^ nat (b - 1)"
    by (simp add: field_simps)
  moreover have "pow2 (- b + 1) = 1 / 2 ^ nat (b - 1)"
    using b1 by (cases "b = 1") (simp_all add: pow2_def)
  ultimately have 2: "a < pow2 (- b + 1)" by simp
  from 1 2 show ?thesis by (simp add: e)
qed

lemma expo_unique:
  assumes "0 < a" and "pow2 e \<le> a" and "a < pow2 (e + 1)"
  shows "expo a = e"
proof -
  from expo_bounds [OF assms(1)] have lo: "pow2 (expo a) \<le> a" and hi: "a < pow2 (expo a + 1)"
    by simp_all
  from lo assms(3) have "pow2 (expo a) < pow2 (e + 1)" by simp
  then have "expo a < e + 1" by (simp only: pow2_less_iff)
  moreover from assms(2) hi have "pow2 e < pow2 (expo a + 1)" by simp
  then have "e < expo a + 1" by (simp only: pow2_less_iff)
  ultimately show ?thesis by simp
qed

lemma double_normal:
  assumes "0 < x" and "pow2 e \<le> x" and "x < pow2 (e + 1)" and "- 1022 \<le> e"
  shows "double x =
     (if of_int (roundEven (x / pow2 (e - 52))) * pow2 (e - 52) \<ge> (2::real) ^ 1024 then PosInf
      else Fin (of_int (roundEven (x / pow2 (e - 52))) * pow2 (e - 52)))"
proof -
  have "expo x = e" using assms(1-3) by (rule expo_unique)
  with assms(1,4) show ?thesis
    by (simp add: double_def Let_def max_def)
qed



lemma roundEven_of_int: "roundEven (of_int z) = z"
  by (simp add: roundEven_def)



lemma double_int:
  assumes "0 < n" and "n < 2 ^ 53"
  shows "double (of_int n) = Fin (of_int n)"
proof -
  define a where "a = real_of_int n"
  from assms(1) have a: "0 < a" "pow2 0 \<le> a"
    by (simp_all add: a_def pow2_def)
  from assms(2) have "a < real_of_int (2 ^ 53)"
    unfolding a_def by (simp only: of_int_less_iff)
  then have a53: "a < pow2 53"
    by (simp add: pow2_def)
  define e where "e = expo a"
  from expo_bounds [OF a(1)] have lo: "pow2 e \<le> a" and hi: "a < pow2 (e + 1)"
    by (simp_all add: e_def)
  from a(2) hi have "pow2 0 < pow2 (e + 1)" by simp
  then have "0 < e + 1" by (simp only: pow2_less_iff)
  then have e0: "0 \<le> e" by simp
  from lo a53 have "pow2 e < pow2 53" by simp
  then have "e < 53" by (simp only: pow2_less_iff)
  then have e52: "e \<le> 52" by simp
  define k where "k = nat (52 - e)"
  have "pow2 (e - 52) * pow2 (52 - e) = 1"
    unfolding pow2_add [symmetric] by (simp add: pow2_def)
  moreover have "pow2 (52 - e) = 2 ^ k"
    using e52 by (simp add: pow2_nat k_def)
  ultimately have u: "pow2 (e - 52) = 1 / 2 ^ k"
    by (simp add: field_simps)
  have "a / pow2 (e - 52) = real_of_int (n * 2 ^ k)"
    by (simp add: u a_def)
  then have r: "roundEven (a / pow2 (e - 52)) = n * 2 ^ k"
    by (simp only: roundEven_of_int)
  have val: "real_of_int (n * 2 ^ k) * pow2 (e - 52) = a"
    by (simp add: u a_def)
  have big: "\<not> (2::real) ^ 1024 \<le> a"
    using a53 by (simp add: pow2_def)
  from e0 have "- 1022 \<le> e" by simp
  from double_normal [OF a(1) lo hi this]
  have "double a = (if (2::real) ^ 1024 \<le> a then PosInf else Fin a)"
    by (simp only: r val)
  with big show ?thesis
    unfolding a_def by (simp only: if_False)
qed

lemma double_num: "double (7 / 10) = Fin (3152519739159347 / 4503599627370496)"
proof -
  have "double (7 / 10) =
     (if of_int (roundEven ((7 / 10) / pow2 (- 1 - 52))) * pow2 (- 1 - 52) \<ge> (2::real) ^ 1024 then PosInf
      else Fin (of_int (roundEven ((7 / 10) / pow2 (- 1 - 52))) * pow2 (- 1 - 52)))"
    by (rule double_normal) (simp_all add: pow2_def)
  moreover have "roundEven ((7 / 10) / pow2 (- 1 - 52)) = 6305039478318694"
    by (simp add: pow2_def roundEven_def Let_def)
  ultimately show ?thesis
    by (simp add: pow2_def)
qed

lemma double_eval:
  assumes "0 < x" and "pow2 e \<le> x" and "x < pow2 (e + 1)" and "- 1022 \<le> e"
    and "roundEven (x / pow2 (e - 52)) = m" and "of_int m * pow2 (e - 52) = r"
  shows "double x = (if (2::real) ^ 1024 \<le> r then PosInf else Fin r)"
  using double_normal [OF assms(1-4)] by (simp only: assms(5,6))


subsection \<open>Signs and \<open>NaN\<close>\<close>









lemma clampNum_finite: "clampNum (Fin n) (Fin a) (Fin b) = Fin (clamp n a b)"
  by (simp add: clampNum_def clamp_def)


subsection \<open>Bitrates at three inputs\<close>








lemma witness_kbps:
  "totalBits (Fin 499) = Fin 4185915392
   \<and> audioBits (Fin 128) (Fin 600) = Fin 76800000
   \<and> videoBits (Fin 499) (Fin 600) (Fin 128) = Fin 4109115392
   \<and> jsMul (Fin 4185915392) (double (7 / 10)) = Fin (1536237646328627 / 524288)
   \<and> computeBitrates (Fin 499) (Fin 600) (Fin 128) = Fin 6848"
proof -
  have t1: "jsMul (Fin 499) (Fin 1024) = Fin 510976"
    using double_int [of 510976] by simp
  have t2: "jsMul (Fin 510976) (Fin 1024) = Fin 523239424"
    using double_int [of 523239424] by simp
  have t3: "jsMul (Fin 523239424) (Fin 8) = Fin 4185915392"
    using double_int [of 4185915392] by simp
  have total: "totalBits (Fin 499) = Fin 4185915392"
    by (simp only: totalBits_def t1 t2 t3)
  have a1: "jsMul (Fin 128) (Fin 1000) = Fin 128000"
    using double_int [of 128000] by simp
  have a2: "jsMul (Fin 128000) (Fin 600) = Fin 76800000"
    using double_int [of 76800000] by simp
  have audio: "audioBits (Fin 128) (Fin 600) = Fin 76800000"
    by (simp only: audioBits_def a1 a2)
  have sub: "jsSub (Fin 4185915392) (Fin 76800000) = Fin 4109115392"
    using double_int [of 4109115392] by simp
  have "double (4185915392 * (3152519739159347 / 4503599627370496))
          = (if (2::real) ^ 1024 \<le> 1536237646328627 / 524288 then PosInf
             else Fin (1536237646328627 / 524288))"
    by (rule double_eval [where e = 31 and m = 6144950585314508])
       (simp_all add: pow2_def roundEven_def Let_def)
  then have prod: "jsMul (Fin 4185915392) (Fin (3152519739159347 / 4503599627370496))
          = Fin (1536237646328627 / 524288)"
    by simp
  have mx: "jsMax (Fin 4109115392) (Fin (1536237646328627 / 524288)) = Fin 4109115392"
    by simp
  have video: "videoBits (Fin 499) (Fin 600) (Fin 128) = Fin 4109115392"
    by (simp only: videoBits_def total audio double_num sub prod mx)
  have "double (4109115392 / 600)
          = (if (2::real) ^ 1024 \<le> 7353548426720925 / 1073741824 then PosInf
             else Fin (7353548426720925 / 1073741824))"
    by (rule double_eval [where e = 22 and m = 7353548426720925])
       (simp_all add: pow2_def roundEven_def Let_def)
  then have bps: "jsDiv (Fin 4109115392) (Fin 600) = Fin (7353548426720925 / 1073741824)"
    by simp
  have "double (7353548426720925 / 1073741824 / 1000)
          = (if (2::real) ^ 1024 \<le> 7530033588962227 / 1099511627776 then PosInf
             else Fin (7530033588962227 / 1099511627776))"
    by (rule double_eval [where e = 12 and m = 7530033588962227])
       (simp_all add: pow2_def roundEven_def Let_def)
  then have q: "jsDiv (Fin (7353548426720925 / 1073741824)) (Fin 1000)
                  = Fin (7530033588962227 / 1099511627776)"
    by simp
  have fl: "jsFloor (Fin (7530033588962227 / 1099511627776)) = Fin 6848"
    by (simp add: floor_eq_iff)
  have cl: "clampNum (Fin 6848) (Fin 200) (Fin 50000) = Fin 6848"
    by (simp add: clampNum_def)
  have kbps: "computeBitrates (Fin 499) (Fin 600) (Fin 128) = Fin 6848"
    by (simp only: computeBitrates_def Let_def video bps q fl cl)
  from total audio video kbps prod show ?thesis
    by (simp only: double_num)
qed


subsection \<open>The bitrate allocator\<close>





subsection \<open>The preset\<close>

text \<open>
  Claim C6.  The preset depends on the duration alone.  A duration above 30 minutes selects
  \<open>veryfast\<close>, a duration of at most 7 minutes selects \<open>slow\<close>, and a longer duration
  never selects a slower tier than a shorter one.
\<close>

theorem autoSettings_preset_monotone:
  "preset (autoSettings w h d) = preset (autoSettings w' h' d)
   \<and> (d > 30 * 60 \<longrightarrow> preset (autoSettings w h d) = ''veryfast'')
   \<and> (d \<le> 7 * 60 \<longrightarrow> preset (autoSettings w h d) = ''slow'')
   \<and> (d \<le> d' \<longrightarrow> tier (preset (autoSettings w h d)) \<le> tier (preset (autoSettings w' h' d')))"
  by (simp add: autoSettings_def tier_def Let_def)

theorem autoSettings_preset_monotone_witness:
  "preset (autoSettings 1920 1080 1801) = ''veryfast''
   \<and> preset (autoSettings 1920 1080 420) = ''slow''
   \<and> preset (autoSettings 1920 1080 421) = ''medium''
   \<and> preset (autoSettings 1920 1080 901) = ''fast''
   \<and> tier (preset (autoSettings 1920 1080 420)) \<le> tier (preset (autoSettings 640 480 901))"
  using autoSettings_preset_monotone [of 1920 1080 1801 1920 1080 1801]
        autoSettings_preset_monotone [of 1920 1080 420 640 480 901]
  by (simp add: autoSettings_def Let_def)

section \<open>Properties of the routes\<close>

text \<open>
  Claim C9.  A progress query for an identifier that is not in the registry answers with the
  status \<open>missing\<close> and nothing else, which no query for a job in the registry answers; a
  download for a job in the registry whose status is not \<open>done\<close> answers 409
  \<^verbatim>\<open>Not ready.\<close> and not the file; a download for an unknown identifier answers 404.
\<close>

theorem routes_missing_and_not_ready:
  "(map_of jobs jobId = None \<longrightarrow>
      getProgress jobs jobId =
        JsonProgress 404 \<lparr>jsonStatus = Some ''missing'', jsonPercent = None,
                          jsonMessage = None, jsonError = None, jsonOutputMB = None\<rparr>
      \<and> getDownload jobs jobId = Send 404 ''Missing job.'')
   \<and> (\<forall>job. map_of jobs jobId = Some job \<longrightarrow>
        (\<exists>body. getProgress jobs jobId = JsonProgress 200 body
                \<and> jsonStatus body = map_option statusName (status job)
                \<and> jsonStatus body \<noteq> Some ''missing''
                \<and> jsonPercent body \<noteq> None \<and> jsonMessage body \<noteq> None)
        \<and> (status job \<noteq> Some Done \<longrightarrow> getDownload jobs jobId = Send 409 ''Not ready.'')
        \<and> (status job = Some Done \<longrightarrow>
             getDownload jobs jobId = Download (outputPath job) (''navine-'' @ jobId @ ''.mp4'')))"
proof -
  have name: "statusName s \<noteq> ''missing''" for s
    by (cases s) (simp_all add: statusName_def)
  show ?thesis
    by (auto simp: getProgress_def getDownload_def name)
qed

theorem routes_missing_and_not_ready_witness:
  "map_of [(''a'', emptyJob\<lparr>status := Some Running\<rparr>)] ''b'' = None
   \<and> getProgress [(''a'', emptyJob\<lparr>status := Some Running\<rparr>)] ''b''
       = JsonProgress 404 \<lparr>jsonStatus = Some ''missing'', jsonPercent = None,
                          jsonMessage = None, jsonError = None, jsonOutputMB = None\<rparr>
   \<and> getDownload [(''a'', emptyJob\<lparr>status := Some Running\<rparr>)] ''b'' = Send 404 ''Missing job.''
   \<and> map_of [(''a'', emptyJob\<lparr>status := Some Running\<rparr>)] ''a'' = Some (emptyJob\<lparr>status := Some Running\<rparr>)
   \<and> status (emptyJob\<lparr>status := Some Running\<rparr>) \<noteq> Some Done
   \<and> getDownload [(''a'', emptyJob\<lparr>status := Some Running\<rparr>)] ''a'' = Send 409 ''Not ready.''
   \<and> getDownload [(''a'', emptyJob\<lparr>status := Some Done, outputPath := Some ''/tmp/navine/out-a.mp4''\<rparr>)] ''a''
       = Download (Some ''/tmp/navine/out-a.mp4'') ''navine-a.mp4''"
  using routes_missing_and_not_ready [of "[(''a'', emptyJob\<lparr>status := Some Running\<rparr>)]" "''b''"]
    routes_missing_and_not_ready [of "[(''a'', emptyJob\<lparr>status := Some Running\<rparr>)]" "''a''"]
    routes_missing_and_not_ready [of "[(''a'', emptyJob\<lparr>status := Some Done, outputPath := Some ''/tmp/navine/out-a.mp4''\<rparr>)]" "''a''"]
  by (simp add: emptyJob_def)

section \<open>Properties of the progress extractor\<close>

text \<open>
  The matcher is sound and complete for strings of the form \<^verbatim>\<open>time=H:M:S.F\<close> with four
  groups of digits.
\<close>

lemma literal_Some: "literal p s = Some r \<longleftrightarrow> s = p @ r"
  by (auto simp: literal_def split: if_splits) (metis append_take_drop_id)

lemma digits_Some:
  assumes "digits s = Some (g, r)"
  shows "s = g @ r \<and> digitGroup g \<and> (r = [] \<or> \<not> isDigit (hd r))"
proof -
  from assms have g: "g = takeWhile isDigit s" and r: "r = dropWhile isDigit s" and ne: "g \<noteq> []"
    by (auto simp: digits_def split: if_splits)
  have "s = g @ r"
    by (simp add: g r)
  moreover have "digitGroup g"
    using ne by (auto simp: digitGroup_def list_all_iff g dest: set_takeWhileD)
  moreover have "r = [] \<or> \<not> isDigit (hd r)"
    unfolding r using hd_dropWhile [of isDigit s] by blast
  ultimately show ?thesis by blast
qed

lemma digits_group_sep:
  "digitGroup g \<Longrightarrow> \<not> isDigit c \<Longrightarrow> digits (g @ c # r) = Some (g, c # r)"
  by (simp add: digits_def digitGroup_def list_all_iff takeWhile_append2 dropWhile_append2)

lemma digits_group_any: "digitGroup g \<Longrightarrow> \<exists>g' r'. digits (g @ r) = Some (g', r')"
  by (cases g) (auto simp: digits_def digitGroup_def)

lemma matchAt_shape:
  assumes "matchAt s = Some (g1, g2, g3, g4)"
  shows "\<exists>rest. s = ''time='' @ g1 @ '':'' @ g2 @ '':'' @ g3 @ ''.'' @ g4 @ rest
           \<and> digitGroup g1 \<and> digitGroup g2 \<and> digitGroup g3 \<and> digitGroup g4
           \<and> (rest = [] \<or> \<not> isDigit (hd rest))"
proof -
  from assms obtain s1 s2 s3 s4 s5 s6 s7 s8 where
    l1: "literal ''time='' s = Some s1" and d1: "digits s1 = Some (g1, s2)" and
    l2: "literal '':'' s2 = Some s3" and d2: "digits s3 = Some (g2, s4)" and
    l3: "literal '':'' s4 = Some s5" and d3: "digits s5 = Some (g3, s6)" and
    l4: "literal ''.'' s6 = Some s7" and d4: "digits s7 = Some (g4, s8)"
    unfolding matchAt_def by (auto simp: bind_eq_Some_conv)
  from l1 l2 l3 l4 d1 d2 d3 d4 show ?thesis
    by (auto simp: literal_Some dest!: digits_Some)
qed

lemma colon_not_digit: "\<not> isDigit CHR '':''" "\<not> isDigit CHR ''.''"
  by (simp_all add: isDigit_def)

lemma literal_append: "literal p (p @ r) = Some r"
  by (simp add: literal_def)

lemma matchAt_complete:
  assumes "digitGroup g1" "digitGroup g2" "digitGroup g3" "digitGroup g4"
  shows "matchAt (''time='' @ g1 @ '':'' @ g2 @ '':'' @ g3 @ ''.'' @ g4 @ rest) \<noteq> None"
proof -
  from digits_group_any [OF assms(4), of rest] obtain g' r' where
    d4: "digits (g4 @ rest) = Some (g', r')" by blast
  have l1: "literal ''time='' (''time='' @ x) = Some x" for x
    by (rule literal_append)
  have lc: "literal '':'' (CHR '':'' # x) = Some x" for x
    using literal_append [of "'':''" x] by simp
  have ld: "literal ''.'' (CHR ''.'' # x) = Some x" for x
    using literal_append [of "''.''" x] by simp
  show ?thesis
    unfolding matchAt_def l1
    by (simp add: digits_group_sep assms colon_not_digit lc ld d4)
qed

lemma matchAt_exact:
  assumes "digitGroup g1" "digitGroup g2" "digitGroup g3" "digitGroup g4"
    and "rest = [] \<or> \<not> isDigit (hd rest)"
  shows "matchAt (''time='' @ g1 @ '':'' @ g2 @ '':'' @ g3 @ ''.'' @ g4 @ rest) = Some (g1, g2, g3, g4)"
proof -
  have d4: "digits (g4 @ rest) = Some (g4, rest)"
  proof (cases rest)
    case Nil
    with assms(4) show ?thesis
      by (auto simp: digits_def digitGroup_def list_all_iff takeWhile_eq_all_conv [THEN iffD2])
  next
    case (Cons c r)
    with assms(5) have "\<not> isDigit c" by simp
    with assms(4) Cons show ?thesis by (simp add: digits_group_sep)
  qed
  have l1: "literal ''time='' (''time='' @ x) = Some x" for x
    by (rule literal_append)
  have lc: "literal '':'' (CHR '':'' # x) = Some x" for x
    using literal_append [of "'':''" x] by simp
  have ld: "literal ''.'' (CHR ''.'' # x) = Some x" for x
    using literal_append [of "''.''" x] by simp
  show ?thesis
    unfolding matchAt_def l1
    by (simp add: digits_group_sep assms colon_not_digit lc ld d4)
qed

lemma timeRe_shape:
  "timeRe s = Some (g1, g2, g3, g4) \<Longrightarrow>
     \<exists>pre rest. s = pre @ ''time='' @ g1 @ '':'' @ g2 @ '':'' @ g3 @ ''.'' @ g4 @ rest
        \<and> digitGroup g1 \<and> digitGroup g2 \<and> digitGroup g3 \<and> digitGroup g4
        \<and> (rest = [] \<or> \<not> isDigit (hd rest))"
proof (induction s)
  case Nil
  then show ?case by simp
next
  case (Cons c cs)
  show ?case
  proof (cases "matchAt (c # cs)")
    case None
    with Cons.prems have "timeRe cs = Some (g1, g2, g3, g4)" by simp
    from Cons.IH [OF this] obtain pre rest where
      "cs = pre @ ''time='' @ g1 @ '':'' @ g2 @ '':'' @ g3 @ ''.'' @ g4 @ rest"
      "digitGroup g1 \<and> digitGroup g2 \<and> digitGroup g3 \<and> digitGroup g4"
      "rest = [] \<or> \<not> isDigit (hd rest)"
      by blast
    then have "c # cs = (c # pre) @ ''time='' @ g1 @ '':'' @ g2 @ '':'' @ g3 @ ''.'' @ g4 @ rest
        \<and> digitGroup g1 \<and> digitGroup g2 \<and> digitGroup g3 \<and> digitGroup g4
        \<and> (rest = [] \<or> \<not> isDigit (hd rest))"
      by simp
    then show ?thesis by blast
  next
    case (Some m)
    with Cons.prems have "matchAt (c # cs) = Some (g1, g2, g3, g4)" by simp
    from matchAt_shape [OF this] obtain rest where
      "c # cs = [] @ ''time='' @ g1 @ '':'' @ g2 @ '':'' @ g3 @ ''.'' @ g4 @ rest
        \<and> digitGroup g1 \<and> digitGroup g2 \<and> digitGroup g3 \<and> digitGroup g4
        \<and> (rest = [] \<or> \<not> isDigit (hd rest))"
      by auto
    then show ?thesis by blast
  qed
qed

lemma timeRe_append: "matchAt s \<noteq> None \<Longrightarrow> timeRe (pre @ s) \<noteq> None"
proof (induction pre)
  case Nil
  then show ?case by (cases s) (auto simp: matchAt_def literal_def)
next
  case (Cons c pre)
  then show ?case by (auto split: option.splits)
qed

lemma timeRe_None_iff:
  "timeRe s \<noteq> None \<longleftrightarrow>
     (\<exists>pre g1 g2 g3 g4 rest. s = pre @ ''time='' @ g1 @ '':'' @ g2 @ '':'' @ g3 @ ''.'' @ g4 @ rest
        \<and> digitGroup g1 \<and> digitGroup g2 \<and> digitGroup g3 \<and> digitGroup g4)"
proof
  assume "timeRe s \<noteq> None"
  then obtain g1 g2 g3 g4 where "timeRe s = Some (g1, g2, g3, g4)"
    by (cases "timeRe s") auto
  from timeRe_shape [OF this] show "\<exists>pre g1 g2 g3 g4 rest. s = pre @ ''time='' @ g1 @ '':'' @ g2 @ '':'' @ g3 @ ''.'' @ g4 @ rest
        \<and> digitGroup g1 \<and> digitGroup g2 \<and> digitGroup g3 \<and> digitGroup g4"
    by blast
next
  assume "\<exists>pre g1 g2 g3 g4 rest. s = pre @ ''time='' @ g1 @ '':'' @ g2 @ '':'' @ g3 @ ''.'' @ g4 @ rest
        \<and> digitGroup g1 \<and> digitGroup g2 \<and> digitGroup g3 \<and> digitGroup g4"
  then show "timeRe s \<noteq> None"
    using timeRe_append matchAt_complete by blast
qed

text \<open>One parser instance: bounds and order of what it publishes.\<close>

lemma clamp_0_100: "0 \<le> clamp x 0 100 \<and> clamp x 0 100 \<le> 100"
  by (simp add: clamp_def)

lemma progressParser_result:
  "progressParser d l c = (l, None)
   \<or> (\<exists>pct. progressParser d l c = (pct, Some (encodingPatch pct)) \<and> l \<le> pct \<and> 0 \<le> pct \<and> pct \<le> 100)"
  using clamp_0_100
  by (auto simp: progressParser_def encodingPatch_def Let_def split: option.splits)

lemma percent_encodingPatch: "percent (encodingPatch pct) = Some pct"
  by (simp add: encodingPatch_def emptyJob_def)

lemma published_bounds:
  "\<forall>p \<in> set (published d l cs). l \<le> p \<and> 0 \<le> p \<and> p \<le> 100"
proof (induction cs arbitrary: l)
  case Nil
  then show ?case by simp
next
  case (Cons c cs)
  from progressParser_result [of d l c] show ?case
  proof
    assume "progressParser d l c = (l, None)"
    with Cons.IH [of l] show ?thesis by simp
  next
    assume "\<exists>pct. progressParser d l c = (pct, Some (encodingPatch pct)) \<and> l \<le> pct \<and> 0 \<le> pct \<and> pct \<le> 100"
    then obtain pct where p: "progressParser d l c = (pct, Some (encodingPatch pct))"
      and b: "l \<le> pct" "0 \<le> pct" "pct \<le> 100" by blast
    from Cons.IH [of pct] b show ?thesis
      by (auto simp: p percent_encodingPatch)
  qed
qed

lemma published_sorted: "sorted (published d l cs)"
proof (induction cs arbitrary: l)
  case Nil
  then show ?case by simp
next
  case (Cons c cs)
  from progressParser_result [of d l c] show ?case
  proof
    assume "progressParser d l c = (l, None)"
    with Cons.IH [of l] show ?thesis by simp
  next
    assume "\<exists>pct. progressParser d l c = (pct, Some (encodingPatch pct)) \<and> l \<le> pct \<and> 0 \<le> pct \<and> pct \<le> 100"
    then obtain pct where p: "progressParser d l c = (pct, Some (encodingPatch pct))"
      by blast
    from Cons.IH [of pct] published_bounds [of d pct cs] show ?thesis
      by (simp add: p percent_encodingPatch)
  qed
qed

lemma feedAll_published:
  "feedAll d jobId l cs = map (\<lambda>pct. SetJob jobId (encodingPatch pct)) (published d l cs)"
proof (induction cs arbitrary: l)
  case Nil
  then show ?case by simp
next
  case (Cons c cs)
  from progressParser_result [of d l c] show ?case
    by (auto simp: Cons.IH percent_encodingPatch)
qed

lemma progressParser_silent:
  "timeRe chunk = None \<or> d = 0 \<Longrightarrow> progressParser d l chunk = (l, None)"
  by (auto simp: progressParser_def split: option.splits)

text \<open>
  Claim C5.  For one parser instance fed any chunks: every percent it publishes is within 0 and
  100, the published percents never decrease, its calls of \<^verbatim>\<open>setJob\<close> are exactly the
  patches of these percents, and a chunk without a match of the time pattern, or a parser made
  with duration 0, publishes nothing and leaves the registry and \<^verbatim>\<open>lastPct\<close> as they are.
\<close>

theorem progressParser_instance:
  "(\<forall>p \<in> set (published d l chunks). 0 \<le> p \<and> p \<le> 100)
   \<and> sorted (published d l chunks)
   \<and> feedAll d jobId l chunks
       = map (\<lambda>pct. SetJob jobId (emptyJob\<lparr>percent := Some pct, message := Some (MsgEncoding pct)\<rparr>))
             (published d l chunks)
   \<and> (timeRe chunk = None \<or> d = 0 \<longrightarrow>
        progressParser d l chunk = (l, None)
        \<and> published d l [chunk] = []
        \<and> feed d jobId chunk (l, jobs) = (l, jobs))"
proof -
  have "timeRe chunk = None \<or> d = 0 \<longrightarrow>
        progressParser d l chunk = (l, None)
        \<and> published d l [chunk] = []
        \<and> feed d jobId chunk (l, jobs) = (l, jobs)"
  proof
    assume "timeRe chunk = None \<or> d = 0"
    then have "progressParser d l chunk = (l, None)"
      by (rule progressParser_silent)
    then show "progressParser d l chunk = (l, None)
        \<and> published d l [chunk] = []
        \<and> feed d jobId chunk (l, jobs) = (l, jobs)"
      by (simp add: feed_def)
  qed
  moreover have "\<forall>p \<in> set (published d l chunks). 0 \<le> p \<and> p \<le> 100"
    using published_bounds [of d l chunks] by blast
  moreover note published_sorted [of d l chunks]
    feedAll_published [of d jobId l chunks, unfolded encodingPatch_def]
  ultimately show ?thesis by blast
qed

theorem progressParser_instance_witness:
  "published 100 0 [''time=00:00:10.00'', ''frame=1'', ''time=00:00:05.00'', ''time=00:03:00.00'']
     = [10, 100]
   \<and> timeRe ''frame=1'' = None
   \<and> feed 100 ''j'' ''frame=1'' (10, []) = (10, [])
   \<and> feed 0 ''j'' ''time=00:00:10.00'' (0, []) = (0, [])"
proof -
  have 1: "published 100 0 [''time=00:00:10.00'', ''frame=1'', ''time=00:00:05.00'', ''time=00:03:00.00'']
     = [10, 100]"
    by (simp add: progressParser_def matchAt_def literal_def digits_def isDigit_def elapsed_def
        decimal_def digitVal_def clamp_def emptyJob_def)
  have 2: "timeRe ''frame=1'' = None"
    by (simp add: matchAt_def literal_def)
  from 1 2 progressParser_instance [of 100 0 "[''time=00:00:10.00'', ''frame=1'', ''time=00:00:05.00'', ''time=00:03:00.00'']" "''j''" "''frame=1''" "[]"]
    progressParser_instance [of 0 0 "[]" "''j''" "''time=00:00:10.00''" "[]"]
    progressParser_instance [of 100 10 "[]" "''j''" "''frame=1''" "[]"]
  show ?thesis by simp
qed

lemma dot_in_match:
  "timeRe s = Some m \<Longrightarrow> CHR ''.'' \<in> set s"
proof -
  assume a: "timeRe s = Some m"
  obtain g1 g2 g3 g4 where "m = (g1, g2, g3, g4)" by (cases m) auto
  with a timeRe_shape [of s g1 g2 g3 g4] show ?thesis by auto
qed

text \<open>
  Claim C10.  The parser matches only a time stamp with a fraction: a match has the form
  \<^verbatim>\<open>time=H:M:S.F\<close> with four non-empty groups of digits, a chunk has a match exactly when
  it contains a string of that form, and a chunk without a dot has none.  The elapsed time of
  a match is \<open>H * 3600 + M * 60 + S + F / 100\<close> whatever the number of digits of \<open>F\<close>:
  \<^verbatim>\<open>01.5\<close> counts as 1.05 seconds and \<^verbatim>\<open>01.500\<close> as 6 seconds.
\<close>

theorem timeRe_fraction_centiseconds:
  "(timeRe chunk = Some (g1, g2, g3, g4) \<longrightarrow>
      (\<exists>pre rest. chunk = pre @ ''time='' @ g1 @ '':'' @ g2 @ '':'' @ g3 @ ''.'' @ g4 @ rest)
      \<and> digitGroup g1 \<and> digitGroup g2 \<and> digitGroup g3 \<and> digitGroup g4
      \<and> (d \<noteq> 0 \<longrightarrow> fst (progressParser d 0 chunk)
             = clamp ((real (decimal g1) * 3600 + real (decimal g2) * 60 + real (decimal g3)
                       + real (decimal g4) / 100) / d * 100) 0 100))
   \<and> elapsed (g1, g2, g3, g4)
       = real (decimal g1) * 3600 + real (decimal g2) * 60 + real (decimal g3) + real (decimal g4) / 100
   \<and> (timeRe chunk \<noteq> None \<longleftrightarrow>
        (\<exists>pre h m s f rest. chunk = pre @ ''time='' @ h @ '':'' @ m @ '':'' @ s @ ''.'' @ f @ rest
           \<and> digitGroup h \<and> digitGroup m \<and> digitGroup s \<and> digitGroup f))
   \<and> (CHR ''.'' \<notin> set chunk \<longrightarrow> timeRe chunk = None)
   \<and> timeRe ''time=00:00:01.5 x'' = Some (''00'', ''00'', ''01'', ''5'')
   \<and> elapsed (''00'', ''00'', ''01'', ''5'') = 1.05
   \<and> timeRe ''time=00:00:01.500 x'' = Some (''00'', ''00'', ''01'', ''500'')
   \<and> elapsed (''00'', ''00'', ''01'', ''500'') = 6
   \<and> timeRe ''time=00:00:05 bitrate=1.5kbits/s'' = None"
proof -
  have el: "elapsed (g1, g2, g3, g4)
       = real (decimal g1) * 3600 + real (decimal g2) * 60 + real (decimal g3) + real (decimal g4) / 100"
    by (simp add: elapsed_def)
  have a: "timeRe chunk = Some (g1, g2, g3, g4) \<longrightarrow>
      (\<exists>pre rest. chunk = pre @ ''time='' @ g1 @ '':'' @ g2 @ '':'' @ g3 @ ''.'' @ g4 @ rest)
      \<and> digitGroup g1 \<and> digitGroup g2 \<and> digitGroup g3 \<and> digitGroup g4"
    using timeRe_shape [of chunk g1 g2 g3 g4] by blast
  have b: "timeRe chunk = Some (g1, g2, g3, g4) \<longrightarrow> d \<noteq> 0 \<longrightarrow> fst (progressParser d 0 chunk)
             = clamp ((real (decimal g1) * 3600 + real (decimal g2) * 60 + real (decimal g3)
                       + real (decimal g4) / 100) / d * 100) 0 100"
    using clamp_0_100 by (auto simp: progressParser_def Let_def el)
  have c: "CHR ''.'' \<notin> set chunk \<longrightarrow> timeRe chunk = None"
    using dot_in_match [of chunk] by (cases "timeRe chunk") auto
  have e1: "timeRe ''time=00:00:01.5 x'' = Some (''00'', ''00'', ''01'', ''5'')"
    by (simp add: matchAt_def literal_def digits_def isDigit_def)
  have e2: "timeRe ''time=00:00:01.500 x'' = Some (''00'', ''00'', ''01'', ''500'')"
    by (simp add: matchAt_def literal_def digits_def isDigit_def)
  have e3: "timeRe ''time=00:00:05 bitrate=1.5kbits/s'' = None"
    by (simp add: matchAt_def literal_def digits_def isDigit_def)
  have v1: "elapsed (''00'', ''00'', ''01'', ''5'') = 1.05"
    by (simp add: elapsed_def decimal_def digitVal_def)
  have v2: "elapsed (''00'', ''00'', ''01'', ''500'') = 6"
    by (simp add: elapsed_def decimal_def digitVal_def)
  from a b el c e1 e2 e3 v1 v2 timeRe_None_iff [of chunk] show ?thesis
    by blast
qed

theorem timeRe_fraction_centiseconds_witness:
  "timeRe ''frame=9 time=01:02:03.45 bitrate'' = Some (''01'', ''02'', ''03'', ''45'')
   \<and> digitGroup ''01'' \<and> digitGroup ''45''
   \<and> fst (progressParser 10000 0 ''frame=9 time=01:02:03.45 bitrate'') = 37.2345
   \<and> CHR ''.'' \<notin> set ''time=00:00:07''
   \<and> timeRe ''time=00:00:07'' = None"
proof -
  have m: "timeRe ''frame=9 time=01:02:03.45 bitrate'' = Some (''01'', ''02'', ''03'', ''45'')"
    by (simp add: matchAt_def literal_def digits_def isDigit_def)
  have v: "clamp ((real (decimal ''01'') * 3600 + real (decimal ''02'') * 60 + real (decimal ''03'')
                       + real (decimal ''45'') / 100) / 10000 * 100) 0 100 = 37.2345"
    by (simp add: decimal_def digitVal_def clamp_def)
  from m v timeRe_fraction_centiseconds [of "''frame=9 time=01:02:03.45 bitrate''" "''01''" "''02''" "''03''" "''45''" 10000]
    timeRe_fraction_centiseconds [of "''time=00:00:07''" "''01''" "''02''" "''03''" "''45''" 1]
  show ?thesis by simp
qed

section \<open>Properties of the registry and the orchestrator\<close>

text \<open>The status and the percent of a job after a call of \<open>setJob\<close>.\<close>

lemma map_of_mapSet: "map_of (mapSet k v jobs) = (map_of jobs)(k \<mapsto> v)"
  by (induction jobs) (auto simp: fun_eq_iff)

lemma map_of_setJob:
  "map_of (setJob j p jobs) i =
     (if i = j then Some (spread (case map_of jobs j of Some c \<Rightarrow> c | None \<Rightarrow> emptyJob) p)
      else map_of jobs i)"
  by (simp add: setJob_def map_of_mapSet)

lemma statusOf_setJob:
  "statusOf i (setJob j p jobs) =
     (if i = j then orElse (status p) (statusOf i jobs) else statusOf i jobs)"
  by (auto simp: statusOf_def map_of_setJob spread_def orElse_def emptyJob_def split: option.splits)

lemma percentOf_setJob:
  "percentOf i (setJob j p jobs) =
     (if i = j then orElse (percent p) (percentOf i jobs) else percentOf i jobs)"
  by (auto simp: percentOf_def map_of_setJob spread_def orElse_def emptyJob_def split: option.splits)

lemma states_append: "states (a @ b) jobs = states a jobs @ states b (execAll a jobs)"
  by (induction a arbitrary: jobs) simp_all

lemma execAll_append: "execAll (a @ b) jobs = execAll b (execAll a jobs)"
  by (induction a arbitrary: jobs) simp_all

lemma statusTrace_append:
  "statusTrace i (a @ b) jobs = statusTrace i a jobs @ statusTrace i b (execAll a jobs)"
  by (simp add: statusTrace_def states_append)

lemma statusTrace_Nil: "statusTrace i [] jobs = []"
  by (simp add: statusTrace_def)

lemma statusTrace_Cons:
  "statusTrace i (e # es) jobs = statusOf i (exec e jobs) # statusTrace i es (exec e jobs)"
  by (simp add: statusTrace_def)

lemma status_encodingPatch: "status (encodingPatch pct) = None"
  by (simp add: encodingPatch_def emptyJob_def)

lemma statusOf_feedAll: "statusOf i (execAll (feedAll d j l cs) jobs) = statusOf i jobs"
proof -
  have "statusOf i (execAll (map (\<lambda>pct. SetJob j (encodingPatch pct)) ps) jobs) = statusOf i jobs" for ps
    by (induction ps arbitrary: jobs)
       (simp_all add: statusOf_setJob status_encodingPatch orElse_def)
  then show ?thesis by (simp add: feedAll_published)
qed

lemma statusOf_publish: "statusOf i (setJob j (encodingPatch pct) jobs) = statusOf i jobs"
  by (simp add: statusOf_setJob status_encodingPatch orElse_def)

lemma statusTrace_publish:
  "set (statusTrace i (map (\<lambda>pct. SetJob j (encodingPatch pct)) ps) jobs) \<subseteq> {statusOf i jobs}"
proof (induction ps arbitrary: jobs)
  case Nil
  then show ?case by (simp add: statusTrace_Nil)
next
  case (Cons p ps)
  from Cons.IH [of "setJob j (encodingPatch p) jobs"] show ?case
    by (simp add: statusTrace_Cons statusOf_publish)
qed

lemma statusTrace_feedAll:
  "set (statusTrace i (feedAll d j l cs) jobs) \<subseteq> {statusOf i jobs}"
  by (simp only: feedAll_published statusTrace_publish)

lemma statusOf_run: "statusOf i (execAll (fst (run cmd args d j out)) jobs) = statusOf i jobs"
  by (simp add: run_def statusOf_feedAll)

lemma statusTrace_run:
  "set (statusTrace i (fst (run cmd args d j out)) jobs) = {statusOf i jobs}"
  using statusTrace_feedAll [of i d j 0 "fst out" jobs]
  by (auto simp: run_def statusTrace_Cons)

lemma twoPassEncode_trace:
  fixes wld str jobId inPath outPath targetMB codec audioKbps autoQuality
  defines "R \<equiv> twoPassEncode wld str jobId inPath outPath targetMB codec audioKbps autoQuality"
  shows "(snd R \<noteq> None \<longrightarrow> set (statusTrace jobId (fst R) jobs) = {Some Running}
                       \<and> statusOf jobId (execAll (fst R) jobs) = Some Running)
       \<and> (snd R = None \<longrightarrow> (\<exists>pre. statusTrace jobId (fst R) jobs = pre @ [Some Done, Some Done, Some Done]
                                 \<and> set pre = {Some Running})
                        \<and> statusOf jobId (execAll (fst R) jobs) = Some Done)"
  unfolding R_def twoPassEncode_def Let_def
  by (auto simp: statusTrace_append statusTrace_Cons statusTrace_Nil execAll_append
      statusOf_setJob statusOf_run statusTrace_run orElse_def emptyJob_def
      split: sum.splits option.splits if_splits)

text \<open>Paths of statuses: queued, then running, then a terminal status that stays.\<close>

lemma successively_const:
  "\<forall>x \<in> set xs. x = a \<Longrightarrow> statusStep a a \<Longrightarrow> successively statusStep xs"
proof (induction xs)
  case Nil
  then show ?case by simp
next
  case (Cons x xs)
  then show ?case by (cases xs) auto
qed

lemma statusStep_refl: "statusStep a a"
  by (cases a) simp_all

lemma statusStep_terminal:
  "statusStep a b \<Longrightarrow> a = Some Done \<or> a = Some Error \<Longrightarrow> b = a"
  by (cases a; cases b) auto

lemma path_successively:
  assumes "set pre = {Some Running}" and "t = Done \<or> t = Error"
  shows "successively statusStep (Some Queued # pre @ replicate k (Some t))"
proof -
  from assms(1) have ne: "pre \<noteq> []"
    by (cases pre) simp_all
  from ne have "hd pre \<in> set pre" and "last pre \<in> set pre"
    by simp_all
  with assms(1) have ends: "hd pre = Some Running" "last pre = Some Running"
    by simp_all
  have 1: "successively statusStep pre"
    by (rule successively_const [of _ "Some Running"]) (simp_all add: assms(1))
  have 2: "successively statusStep (replicate k (Some t))"
    by (rule successively_const [of _ "Some t"]) simp_all
  have 3: "replicate k (Some t) \<noteq> [] \<longrightarrow> statusStep (last pre) (hd (replicate k (Some t)))"
    using assms(2) by (cases k) (auto simp: ends)
  from 1 2 3 ne have "successively statusStep (pre @ replicate k (Some t))"
    by (simp only: successively_append_iff) blast
  moreover have "statusStep (Some Queued) (hd (pre @ replicate k (Some t)))"
    using ne by (simp add: ends)
  ultimately show ?thesis
    by (simp only: successively_Cons) blast
qed

lemma terminal_tail:
  "successively statusStep (x # xs) \<Longrightarrow> x = Some Done \<or> x = Some Error \<Longrightarrow> \<forall>y \<in> set xs. y = x"
proof (induction xs arbitrary: x)
  case Nil
  then show ?case by simp
next
  case (Cons y ys)
  from Cons.prems have "statusStep x y" and s: "successively statusStep (y # ys)"
    by simp_all
  with Cons.prems(2) have "y = x" by (auto dest: statusStep_terminal)
  with Cons.IH [OF s] Cons.prems(2) show ?case by auto
qed

lemma successively_drop: "successively P xs \<Longrightarrow> successively P (drop n xs)"
proof -
  assume "successively P xs"
  then have "successively P (take n xs @ drop n xs)"
    by (simp only: append_take_drop_id)
  then show ?thesis
    by (simp only: successively_append_iff)
qed

lemma terminal_persists:
  assumes "successively statusStep tr" and "i \<le> j" and "j < length tr"
    and "tr ! i = Some Done \<or> tr ! i = Some Error"
  shows "tr ! j = tr ! i"
proof (cases "i = j")
  case True
  then show ?thesis by simp
next
  case False
  with assms have ij: "i < j" "i < length tr" by simp_all
  have "drop i tr = tr ! i # drop (Suc i) tr"
    using ij(2) by (rule Cons_nth_drop_Suc [symmetric])
  with successively_drop [OF assms(1), of i]
  have "successively statusStep (tr ! i # drop (Suc i) tr)"
    by simp
  from terminal_tail [OF this assms(4)] have all: "\<forall>y \<in> set (drop (Suc i) tr). y = tr ! i" .
  have "tr ! j = drop (Suc i) tr ! (j - Suc i)"
    using ij assms(3) by simp
  moreover have "j - Suc i < length (drop (Suc i) tr)"
    using ij assms(3) by simp
  ultimately have "tr ! j \<in> set (drop (Suc i) tr)"
    by (metis nth_mem)
  with all show ?thesis by blast
qed

lemma startJob_shape:
  assumes "reqFile req = Some inPath"
  shows "\<exists>pre t k. statusTrace jobId (snd (startJob wld str jobId req)) jobs
                     = Some Queued # pre @ replicate k (Some t)
           \<and> set pre = {Some Running} \<and> (t = Done \<or> t = Error) \<and> 0 < k"
proof -
  define outPath where "outPath = pathJoin workDir (''out-'' @ jobId @ ''.mp4'')"
  define queued where "queued = SetJob jobId (emptyJob\<lparr>status := Some Queued, percent := Some 0,
                            message := Some MsgQueued, inputPath := Some inPath,
                            outputPath := Some outPath\<rparr>)"
  define R where "R = twoPassEncode wld str jobId inPath outPath (reqTargetMB req)
      (if reqCodec req = Some ''h265'' then ''h265'' else ''h264'') (reqAudioKbps req)
      (if reqAutoQuality req = Some ''off'' then ''off'' else ''on'')"
  define caught where "caught = (case snd R of None \<Rightarrow> []
     | Some f \<Rightarrow> [SetJob jobId (emptyJob\<lparr>status := Some Error, percent := Some 0,
                     message := Some MsgError, error := Some f\<rparr>)])"
  have eff: "snd (startJob wld str jobId req) = queued # fst R @ caught @ [Unlink inPath]"
    using assms by (simp add: startJob_def Let_def caught_def R_def queued_def outPath_def)
  note tr = twoPassEncode_trace [of wld str jobId inPath outPath "reqTargetMB req"
      "if reqCodec req = Some ''h265'' then ''h265'' else ''h264''" "reqAudioKbps req"
      "if reqAutoQuality req = Some ''off'' then ''off'' else ''on''" "exec queued jobs",
      folded R_def]
  have q: "statusOf jobId (exec queued jobs) = Some Queued"
    by (simp add: queued_def statusOf_setJob orElse_def emptyJob_def)
  let ?mid = "statusTrace jobId (fst R) (exec queued jobs)"
  let ?jobs' = "execAll (fst R) (exec queued jobs)"
  have whole: "statusTrace jobId (snd (startJob wld str jobId req)) jobs
      = Some Queued # ?mid @ statusTrace jobId (caught @ [Unlink inPath]) ?jobs'"
    by (simp only: eff statusTrace_Cons statusTrace_append q)
  show ?thesis
  proof (cases "snd R")
    case None
    with tr obtain pre where pre: "?mid = pre @ [Some Done, Some Done, Some Done]"
      "set pre = {Some Running}" and fin: "statusOf jobId ?jobs' = Some Done"
      by auto
    have "statusTrace jobId (caught @ [Unlink inPath]) ?jobs' = [Some Done]"
      using None fin by (simp add: caught_def statusTrace_Cons statusTrace_Nil)
    with whole pre(1) have "statusTrace jobId (snd (startJob wld str jobId req)) jobs
            = Some Queued # pre @ replicate 4 (Some Done)"
      by (simp add: numeral_eq_Suc)
    with pre(2) show ?thesis by (intro exI [of _ pre] exI [of _ Done] exI [of _ 4]) simp
  next
    case (Some f)
    with tr have pre: "set ?mid = {Some Running}"
      by auto
    have "statusTrace jobId (caught @ [Unlink inPath]) ?jobs' = [Some Error, Some Error]"
      using Some by (simp add: caught_def statusTrace_Cons statusTrace_Nil
          statusOf_setJob orElse_def emptyJob_def)
    with whole have "statusTrace jobId (snd (startJob wld str jobId req)) jobs
            = Some Queued # ?mid @ replicate 2 (Some Error)"
      by (simp add: numeral_eq_Suc)
    with pre show ?thesis
      by (intro exI [of _ ?mid] exI [of _ Error] exI [of _ 2]) simp
  qed
qed

section \<open>Properties of the encoder arguments\<close>

lemma spawns_append: "spawns (a @ b) = spawns a @ spawns b"
  by (induction a rule: spawns.induct) simp_all

lemma spawns_publish: "spawns (map (\<lambda>pct. SetJob j (encodingPatch pct)) ps) = []"
  by (induction ps) simp_all

lemma spawns_feedAll: "spawns (feedAll d j l cs) = []"
  by (simp only: feedAll_published spawns_publish)

lemma spawns_run: "spawns (fst (run cmd args d j out)) = [(cmd, args)]"
  by (simp add: run_def spawns_feedAll)

lemma parseDurationSeconds_string:
  assumes "format probe = Some fmt" and "duration fmt = Some (JStr s)" and "s \<noteq> []"
    and "str s = Fin d" and "0 < d"
  shows "parseDurationSeconds str probe = d"
  using assms by (simp add: parseDurationSeconds_def durationField_def truthy_def Number_def)

lemma find_first:
  assumes "\<forall>x \<in> set pre. \<not> P x" and "P v"
  shows "find P (pre @ v # post) = Some v"
  using assms by (induction pre) simp_all

lemma find_none: "\<forall>x \<in> set xs. \<not> P x \<Longrightarrow> find P xs = None"
  by (induction xs) simp_all

lemma dims_first_video:
  assumes "streams probe = Some (pre @ v # post)"
    and "\<forall>x \<in> set pre. codec_type x \<noteq> Some ''video''" and "codec_type v = Some ''video''"
  shows "videoWidth probe = (case width v of None \<Rightarrow> 0 | Some x \<Rightarrow> x)"
    and "videoHeight probe = (case height v of None \<Rightarrow> 0 | Some x \<Rightarrow> x)"
  using find_first [of pre "\<lambda>s. codec_type s = Some ''video''" v post] assms
  by (simp_all add: videoWidth_def videoHeight_def getVideoStream_def)

lemma dims_no_video:
  assumes "streams probe = None
         \<or> (\<exists>ss. streams probe = Some ss \<and> (\<forall>x \<in> set ss. codec_type x \<noteq> Some ''video''))"
  shows "videoWidth probe = 0" and "videoHeight probe = 0"
proof -
  have "getVideoStream probe = None"
  proof (cases "streams probe")
    case None
    then show ?thesis by (simp add: getVideoStream_def)
  next
    case (Some ss)
    with assms have "\<forall>x \<in> set ss. \<not> codec_type x = Some ''video''" by simp
    then have "find (\<lambda>s. codec_type s = Some ''video'') ss = None"
      by (rule find_none)
    with Some show ?thesis by (simp add: getVideoStream_def)
  qed
  then show "videoWidth probe = 0" and "videoHeight probe = 0"
    by (simp_all add: videoWidth_def videoHeight_def)
qed

lemma twoPassEncode_spawns:
  assumes "probeOutcome wld = Inr probe" and "parseDurationSeconds str probe = d" and "d \<noteq> 0"
  shows "spawns (fst (twoPassEncode wld str jobId inPath outPath targetMB codec audioKbps autoQuality)) =
     (let pl = makePlan probe d jobId targetMB codec audioKbps autoQuality
      in (''ffmpeg'', p1Args pl inPath)
         # (if snd (pass1 wld) = Some 0 then [(''ffmpeg'', p2Args pl inPath outPath audioKbps)] else []))"
  using assms
  by (auto simp: twoPassEncode_def Let_def spawns_append spawns_feedAll run_def
      split: option.splits)

lemma bitrates_append: "bitrates (a @ b) = bitrates a @ bitrates b"
  by (induction a rule: bitrates.induct) simp_all


text \<open>
  Claim C7.  Let the probe report a usable duration \<open>d\<close> and let \<open>w\<close> and \<open>h\<close> be the width and
  the height of its first video stream (0 where the report has none).  The encoder
  processes started by the orchestrator are pass 1 and, when pass 1 closes with code 0,
  pass 2, with the argument lists below.  A scale filter \<^verbatim>\<open>-vf scale=1920:-2\<close> is among the
  arguments of a pass if and only if \<open>max w h \<ge> 3840\<close> and \<open>autoQuality\<close> is \<open>on\<close>.  When
  \<open>autoQuality\<close> is \<open>off\<close> the preset is \<open>medium\<close> and there is no scale filter.  The bitrates
  passed to the encoder are the same for \<open>autoQuality\<close> \<open>on\<close> and \<open>off\<close>: the video bitrate
  computed from the target size, the duration and the audio bitrate, and the audio bitrate.
\<close>

theorem encoder_arguments:
  assumes "probeOutcome wld = Inr probe"
    and "format probe = Some fmt" and "duration fmt = Some (JStr s)" and "s \<noteq> []"
    and "str s = Fin d" and "0 < d"
    and "(\<exists>pre v post. streams probe = Some (pre @ v # post)
            \<and> (\<forall>x \<in> set pre. codec_type x \<noteq> Some ''video'') \<and> codec_type v = Some ''video''
            \<and> w = (case width v of None \<Rightarrow> 0 | Some x \<Rightarrow> x)
            \<and> h = (case height v of None \<Rightarrow> 0 | Some x \<Rightarrow> x))
       \<or> ((streams probe = None
             \<or> (\<exists>ss. streams probe = Some ss \<and> (\<forall>x \<in> set ss. codec_type x \<noteq> Some ''video'')))
           \<and> w = 0 \<and> h = 0)"
  shows "(let scale = (if max w h \<ge> 3840 \<and> autoQuality = ''on''
                       then [Str ''-vf'', Str ''scale=1920:-2''] else []);
              speed = (if autoQuality = ''on''
                       then (if d > 30 * 60 then ''veryfast'' else if d > 15 * 60 then ''fast''
                             else if d > 7 * 60 then ''medium'' else ''slow'')
                       else ''medium'');
              kbps = computeBitrates (Fin targetMB) (Fin d) (Fin audioKbps);
              lib = (if codec = ''h265'' then ''libx265'' else ''libx264'');
              passlog = ''/tmp/navine/passlog-'' @ jobId;
              args1 = [Str ''-y'', Str ''-i'', Str inPath] @ scale @
                      [Str ''-c:v'', Str lib, Str ''-b:v'', Kbps kbps, Str ''-preset'', Str speed,
                       Str ''-pass'', Str ''1'', Str ''-passlogfile'', Str passlog,
                       Str ''-an'', Str ''-f'', Str ''mp4'', Str ''/dev/null''];
              args2 = [Str ''-y'', Str ''-i'', Str inPath] @ scale @
                      [Str ''-c:v'', Str lib, Str ''-b:v'', Kbps kbps, Str ''-preset'', Str speed,
                       Str ''-pass'', Str ''2'', Str ''-passlogfile'', Str passlog,
                       Str ''-c:a'', Str ''aac'', Str ''-b:a'', Kbps (Fin audioKbps),
                       Str ''-movflags'', Str ''+faststart'', Str outPath];
              started = (\<lambda>a. spawns (fst (twoPassEncode wld str jobId inPath outPath targetMB
                                              codec audioKbps a)))
          in started autoQuality =
               (''ffmpeg'', args1) # (if snd (pass1 wld) = Some 0 then [(''ffmpeg'', args2)] else [])
           \<and> (inPath \<noteq> ''-vf'' \<longrightarrow>
                 (Str ''-vf'' \<in> set args1 \<longleftrightarrow> max w h \<ge> 3840 \<and> autoQuality = ''on''))
           \<and> (inPath \<noteq> ''-vf'' \<and> outPath \<noteq> ''-vf'' \<longrightarrow>
                 (Str ''-vf'' \<in> set args2 \<longleftrightarrow> max w h \<ge> 3840 \<and> autoQuality = ''on''))
           \<and> (autoQuality = ''off'' \<longrightarrow>
                 args1 = [Str ''-y'', Str ''-i'', Str inPath,
                          Str ''-c:v'', Str lib, Str ''-b:v'', Kbps kbps,
                          Str ''-preset'', Str ''medium'',
                          Str ''-pass'', Str ''1'', Str ''-passlogfile'', Str passlog,
                          Str ''-an'', Str ''-f'', Str ''mp4'', Str ''/dev/null''])
           \<and> map (\<lambda>p. bitrates (snd p)) (started ''on'')
               = map (\<lambda>p. bitrates (snd p)) (started ''off'')
           \<and> map (\<lambda>p. bitrates (snd p)) (started autoQuality)
               = [kbps] # (if snd (pass1 wld) = Some 0 then [[kbps, Fin audioKbps]] else []))"
proof -
  have dur: "parseDurationSeconds str probe = d"
    using assms(2-6) by (rule parseDurationSeconds_string)
  have wh: "videoWidth probe = w \<and> videoHeight probe = h"
    using assms(7) dims_first_video [of probe] dims_no_video [of probe] by blast
  have d0: "d \<noteq> 0" using assms(6) by simp
  have plan: "makePlan probe d jobId targetMB codec audioKbps a =
     \<lparr>planScale = (if max w h \<ge> 3840 \<and> a = ''on''
                       then [Str ''-vf'', Str ''scale=1920:-2''] else []),
      planPreset = (if a = ''on''
                       then (if d > 30 * 60 then ''veryfast'' else if d > 15 * 60 then ''fast''
                             else if d > 7 * 60 then ''medium'' else ''slow'')
                       else ''medium''),
      planVideoKbps = computeBitrates (Fin targetMB) (Fin d) (Fin audioKbps),
      planCodec = (if codec = ''h265'' then ''libx265'' else ''libx264''),
      planPasslog = ''/tmp/navine/passlog-'' @ jobId\<rparr>" for a
    by (simp add: makePlan_def wh autoSettings_def orZero_def useScale_def chosenPreset_def
        vCodec_def pathJoin_def workDir_def Let_def)
  note sp = twoPassEncode_spawns [OF assms(1) dur d0]
  show ?thesis
    by (auto simp: Let_def sp plan p1Args_def p2Args_def bitrates_append)
qed

theorem encoder_arguments_witness:
  "probeOutcome uhdWorld = Inr uhd
   \<and> format uhd = Some \<lparr>duration = Some (JStr ''600.0'')\<rparr>
   \<and> uhdStr ''600.0'' = Fin 600
   \<and> streams uhd = Some ([\<lparr>codec_type = Some ''audio'', width = None, height = None\<rparr>]
                          @ \<lparr>codec_type = Some ''video'', width = Some 2160, height = Some 3840\<rparr> # [])
   \<and> spawns (fst (twoPassEncode uhdWorld uhdStr ''j'' ''/tmp/navine/uploads/f''
                     ''/tmp/navine/out-j.mp4'' 499 ''h264'' 128 ''on''))
       = [(''ffmpeg'',
           [Str ''-y'', Str ''-i'', Str ''/tmp/navine/uploads/f'', Str ''-vf'', Str ''scale=1920:-2'',
            Str ''-c:v'', Str ''libx264'', Str ''-b:v'', Kbps (Fin 6848),
            Str ''-preset'', Str ''medium'', Str ''-pass'', Str ''1'',
            Str ''-passlogfile'', Str ''/tmp/navine/passlog-j'',
            Str ''-an'', Str ''-f'', Str ''mp4'', Str ''/dev/null'']),
          (''ffmpeg'',
           [Str ''-y'', Str ''-i'', Str ''/tmp/navine/uploads/f'', Str ''-vf'', Str ''scale=1920:-2'',
            Str ''-c:v'', Str ''libx264'', Str ''-b:v'', Kbps (Fin 6848),
            Str ''-preset'', Str ''medium'', Str ''-pass'', Str ''2'',
            Str ''-passlogfile'', Str ''/tmp/navine/passlog-j'',
            Str ''-c:a'', Str ''aac'', Str ''-b:a'', Kbps (Fin 128),
            Str ''-movflags'', Str ''+faststart'', Str ''/tmp/navine/out-j.mp4''])]
   \<and> spawns (fst (twoPassEncode uhdWorld uhdStr ''j'' ''/tmp/navine/uploads/f''
                     ''/tmp/navine/out-j.mp4'' 499 ''h264'' 128 ''off''))
       = [(''ffmpeg'',
           [Str ''-y'', Str ''-i'', Str ''/tmp/navine/uploads/f'',
            Str ''-c:v'', Str ''libx264'', Str ''-b:v'', Kbps (Fin 6848),
            Str ''-preset'', Str ''medium'', Str ''-pass'', Str ''1'',
            Str ''-passlogfile'', Str ''/tmp/navine/passlog-j'',
            Str ''-an'', Str ''-f'', Str ''mp4'', Str ''/dev/null'']),
          (''ffmpeg'',
           [Str ''-y'', Str ''-i'', Str ''/tmp/navine/uploads/f'',
            Str ''-c:v'', Str ''libx264'', Str ''-b:v'', Kbps (Fin 6848),
            Str ''-preset'', Str ''medium'', Str ''-pass'', Str ''2'',
            Str ''-passlogfile'', Str ''/tmp/navine/passlog-j'',
            Str ''-c:a'', Str ''aac'', Str ''-b:a'', Kbps (Fin 128),
            Str ''-movflags'', Str ''+faststart'', Str ''/tmp/navine/out-j.mp4''])]"
proof -
  let ?a = "\<lparr>codec_type = Some ''audio'', width = None, height = None\<rparr>"
  let ?v = "\<lparr>codec_type = Some ''video'', width = Some 2160, height = Some 3840\<rparr>"
  have p: "probeOutcome uhdWorld = Inr uhd"
    by (simp add: uhdWorld_def)
  have f: "format uhd = Some \<lparr>duration = Some (JStr ''600.0'')\<rparr>"
    by (simp add: uhd_def)
  have du: "duration \<lparr>duration = Some (JStr ''600.0'')\<rparr> = Some (JStr ''600.0'')"
    by simp
  have ne: "''600.0'' \<noteq> []" by simp
  have n: "uhdStr ''600.0'' = Fin 600"
    by (simp add: uhdStr_def)
  have pos: "(0::real) < 600" by simp
  have st: "streams uhd = Some ([?a] @ ?v # [])"
    by (simp add: uhd_def)
  then have dims: "(\<exists>pre v post. streams uhd = Some (pre @ v # post)
            \<and> (\<forall>x \<in> set pre. codec_type x \<noteq> Some ''video'') \<and> codec_type v = Some ''video''
            \<and> (2160::real) = (case width v of None \<Rightarrow> 0 | Some x \<Rightarrow> x)
            \<and> (3840::real) = (case height v of None \<Rightarrow> 0 | Some x \<Rightarrow> x))
       \<or> ((streams uhd = None
             \<or> (\<exists>ss. streams uhd = Some ss \<and> (\<forall>x \<in> set ss. codec_type x \<noteq> Some ''video'')))
           \<and> (2160::real) = 0 \<and> (3840::real) = 0)"
    by (intro disjI1 exI [of _ "[?a]"] exI [of _ ?v] exI [of _ "[]"]) simp
  have pass: "snd (pass1 uhdWorld) = Some 0"
    by (simp add: uhdWorld_def sampleWorld_def)
  have kb: "computeBitrates (Fin 499) (Fin 600) (Fin 128) = Fin 6848"
    using witness_kbps by blast
  note th = encoder_arguments [where str = uhdStr and s = "''600.0''" and d = 600 and w = 2160
      and h = 3840 and targetMB = 499 and audioKbps = 128, OF p f du ne n pos dims,
      unfolded Let_def kb pass]
  from th [where jobId = "''j''" and inPath = "''/tmp/navine/uploads/f''"
      and outPath = "''/tmp/navine/out-j.mp4''" and codec = "''h264''" and autoQuality = "''on''"]
  have on: "spawns (fst (twoPassEncode uhdWorld uhdStr ''j'' ''/tmp/navine/uploads/f''
                     ''/tmp/navine/out-j.mp4'' 499 ''h264'' 128 ''on''))
       = [(''ffmpeg'',
           [Str ''-y'', Str ''-i'', Str ''/tmp/navine/uploads/f'', Str ''-vf'', Str ''scale=1920:-2'',
            Str ''-c:v'', Str ''libx264'', Str ''-b:v'', Kbps (Fin 6848),
            Str ''-preset'', Str ''medium'', Str ''-pass'', Str ''1'',
            Str ''-passlogfile'', Str ''/tmp/navine/passlog-j'',
            Str ''-an'', Str ''-f'', Str ''mp4'', Str ''/dev/null'']),
          (''ffmpeg'',
           [Str ''-y'', Str ''-i'', Str ''/tmp/navine/uploads/f'', Str ''-vf'', Str ''scale=1920:-2'',
            Str ''-c:v'', Str ''libx264'', Str ''-b:v'', Kbps (Fin 6848),
            Str ''-preset'', Str ''medium'', Str ''-pass'', Str ''2'',
            Str ''-passlogfile'', Str ''/tmp/navine/passlog-j'',
            Str ''-c:a'', Str ''aac'', Str ''-b:a'', Kbps (Fin 128),
            Str ''-movflags'', Str ''+faststart'', Str ''/tmp/navine/out-j.mp4''])]"
    by simp
  from th [where jobId = "''j''" and inPath = "''/tmp/navine/uploads/f''"
      and outPath = "''/tmp/navine/out-j.mp4''" and codec = "''h264''" and autoQuality = "''off''"]
  have off: "spawns (fst (twoPassEncode uhdWorld uhdStr ''j'' ''/tmp/navine/uploads/f''
                     ''/tmp/navine/out-j.mp4'' 499 ''h264'' 128 ''off''))
       = [(''ffmpeg'',
           [Str ''-y'', Str ''-i'', Str ''/tmp/navine/uploads/f'',
            Str ''-c:v'', Str ''libx264'', Str ''-b:v'', Kbps (Fin 6848),
            Str ''-preset'', Str ''medium'', Str ''-pass'', Str ''1'',
            Str ''-passlogfile'', Str ''/tmp/navine/passlog-j'',
            Str ''-an'', Str ''-f'', Str ''mp4'', Str ''/dev/null'']),
          (''ffmpeg'',
           [Str ''-y'', Str ''-i'', Str ''/tmp/navine/uploads/f'',
            Str ''-c:v'', Str ''libx264'', Str ''-b:v'', Kbps (Fin 6848),
            Str ''-preset'', Str ''medium'', Str ''-pass'', Str ''2'',
            Str ''-passlogfile'', Str ''/tmp/navine/passlog-j'',
            Str ''-c:a'', Str ''aac'', Str ''-b:a'', Kbps (Fin 128),
            Str ''-movflags'', Str ''+faststart'', Str ''/tmp/navine/out-j.mp4''])]"
    by simp
  from p f n st on off show ?thesis
    by (simp only: simp_thms)
qed

section \<open>Properties of the reaper\<close>

text \<open>
  What the reaper leaves of a registry with distinct keys: a job is removed when it is
  \<open>purged\<close>, and is kept with its \<^verbatim>\<open>createdAt\<close> stamped otherwise.
\<close>

lemma reaperLoop_keys: "fst ` set (fst (reaperLoop now jobs files)) \<subseteq> fst ` set jobs"
proof (induction jobs arbitrary: files)
  case Nil
  then show ?case by simp
next
  case (Cons e rest)
  obtain k j where e: "e = (k, j)" by (cases e) auto
  from Cons.IH [of files]
    Cons.IH [of "case outputPath j of None \<Rightarrow> files
                 | Some f \<Rightarrow> if f \<noteq> [] then files - {f} else files"]
  show ?case
    unfolding e by (cases "purged now j") (auto simp: Let_def purged_def anchor_def)
qed

lemma reaperLoop_map_of:
  "distinct (map fst jobs) \<Longrightarrow>
   map_of (fst (reaperLoop now jobs files)) i =
     (case map_of jobs i of None \<Rightarrow> None
      | Some j \<Rightarrow> if purged now j then None else Some (j\<lparr>createdAt := Some (anchor now j)\<rparr>))"
proof (induction jobs arbitrary: files)
  case Nil
  then show ?case by simp
next
  case (Cons e rest)
  obtain k j where e: "e = (k, j)" by (cases e) auto
  from Cons.prems e have d: "distinct (map fst rest)" and k: "k \<notin> fst ` set rest"
    by auto
  from k have none: "map_of rest k = None"
    by (simp add: map_of_eq_None_iff)
  note IH = Cons.IH [OF d]
  show ?case
  proof (cases "purged now j")
    case True
    then show ?thesis
      using IH none by (auto simp: e Let_def purged_def anchor_def)
  next
    case False
    then show ?thesis
      using IH by (auto simp: e Let_def purged_def anchor_def)
  qed
qed

lemma reaper_status:
  assumes "distinct (map fst jobs)"
  shows "statusOf i (fst (reaper now (jobs, files))) =
     (case map_of jobs i of None \<Rightarrow> None
      | Some j \<Rightarrow> if purged now j then None else status j)"
  by (simp add: statusOf_def reaper_def reaperLoop_map_of [OF assms] split: option.splits)

lemma reaper_keeps_status:
  assumes "distinct (map fst jobs)"
  shows "statusOf i (fst (reaper now (jobs, files))) = statusOf i jobs
       \<or> (statusOf i (fst (reaper now (jobs, files))) = None
          \<and> (statusOf i jobs = Some Done \<or> statusOf i jobs = Some Error))"
  unfolding reaper_status [OF assms]
  by (auto simp: statusOf_def purged_def split: option.splits)

text \<open>
  The keys of the registry stay distinct under \<open>setJob\<close> and under the reaper, as the
  keys of a \<^verbatim>\<open>Map\<close> are.
\<close>

lemma mapSet_keys:
  "map fst (mapSet k v jobs) = (if k \<in> fst ` set jobs then map fst jobs else map fst jobs @ [k])"
  by (induction jobs) (force split: if_splits)+

lemma setJob_distinct: "distinct (map fst jobs) \<Longrightarrow> distinct (map fst (setJob jobId patch jobs))"
  by (simp add: setJob_def Let_def mapSet_keys)

lemma reaper_distinct:
  "distinct (map fst jobs) \<Longrightarrow> distinct (map fst (fst (reaper now (jobs, files))))"
proof (induction jobs arbitrary: files)
  case Nil
  then show ?case by (simp add: reaper_def)
next
  case (Cons e rest)
  obtain k j where e: "e = (k, j)" by (cases e) auto
  from Cons.prems e have d: "distinct (map fst rest)" and k: "k \<notin> fst ` set rest"
    by auto
  from k reaperLoop_keys [of now rest] have k': "k \<notin> fst ` set (fst (reaperLoop now rest fs))" for fs
    by blast
  from Cons.IH [OF d] have IH: "distinct (map fst (fst (reaperLoop now rest fs)))" for fs
    by (simp add: reaper_def)
  show ?case
    using IH k' by (simp add: reaper_def e Let_def)
qed

lemma reaper_single:
  "reaper now ([(k, j)], files) =
     (if purged now j
      then ([], case outputPath j of None \<Rightarrow> files
                | Some f \<Rightarrow> if f \<noteq> [] then files - {f} else files)
      else ([(k, j\<lparr>createdAt := Some (anchor now j)\<rparr>)], files))"
  by (simp add: reaper_def purged_def anchor_def Let_def)

section \<open>Properties of schedules\<close>

text \<open>
  Under any schedule whose writes to a job are phased, each step is a step in the life of
  the job, and a terminal status stays until the job is removed.
\<close>

lemma lifeStep_refl: "lifeStep a a"
  by (cases a) simp_all

lemma phased_terminal: "phased s ps \<Longrightarrow> s = Some Done \<or> s = Some Error \<Longrightarrow> ps = []"
  by (cases ps) (auto split: option.splits)

lemma lifeTrace_Nil: "lifeTrace i [] st = []"
  by (simp add: lifeTrace_def)

lemma lifeTrace_Cons: "lifeTrace i (x # xs) st = statusOf i (fst (stepSys x st)) # lifeTrace i xs (stepSys x st)"
  by (simp add: lifeTrace_def)

lemma stepSys_distinct:
  "distinct (map fst (fst st)) \<Longrightarrow> distinct (map fst (fst (stepSys x st)))"
proof (cases x)
  case (Eff e)
  assume "distinct (map fst (fst st))"
  then show ?thesis
    unfolding Eff by (cases e) (simp_all add: setJob_distinct)
next
  case (Tick now)
  assume "distinct (map fst (fst st))"
  then show ?thesis
    unfolding Tick using reaper_distinct [of "fst st" now "snd st"] by simp
qed

lemma stepSys_status:
  assumes "distinct (map fst (fst st))" and "phased (statusOf i (fst st)) (patches i (effectsOf (x # xs)))"
  shows "lifeStep (statusOf i (fst st)) (statusOf i (fst (stepSys x st)))
       \<and> phased (statusOf i (fst (stepSys x st))) (patches i (effectsOf xs))"
proof (cases x)
  case (Eff e)
  show ?thesis
  proof (cases e)
    case (SetJob j p)
    show ?thesis
    proof (cases "j = i")
      case True
      with assms(2) Eff SetJob show ?thesis
        by (cases "statusOf i (fst st)")
           (auto simp: statusOf_setJob orElse_def lifeStep_refl split: option.splits)
    next
      case False
      with assms(2) Eff SetJob show ?thesis
        by (simp add: statusOf_setJob lifeStep_refl)
    qed
  next
    case (Ffprobe f)
    with assms(2) Eff show ?thesis by (simp add: lifeStep_refl)
  next
    case (Spawn c a)
    with assms(2) Eff show ?thesis by (simp add: lifeStep_refl)
  next
    case (Unlink f)
    with assms(2) Eff show ?thesis by (simp add: lifeStep_refl)
  qed
next
  case (Tick now)
  from reaper_keeps_status [OF assms(1), of i now "snd st"]
  have k: "statusOf i (fst (reaper now st)) = statusOf i (fst st)
       \<or> (statusOf i (fst (reaper now st)) = None
          \<and> (statusOf i (fst st) = Some Done \<or> statusOf i (fst st) = Some Error))"
    by simp
  from assms(2) Tick have ph: "phased (statusOf i (fst st)) (patches i (effectsOf xs))"
    by simp
  from k show ?thesis
  proof
    assume "statusOf i (fst (reaper now st)) = statusOf i (fst st)"
    with ph Tick show ?thesis by (simp add: lifeStep_refl)
  next
    assume r: "statusOf i (fst (reaper now st)) = None
          \<and> (statusOf i (fst st) = Some Done \<or> statusOf i (fst st) = Some Error)"
    with ph have "patches i (effectsOf xs) = []"
      by (auto dest: phased_terminal)
    with r Tick show ?thesis by auto
  qed
qed

lemma schedule_successively:
  "distinct (map fst (fst st)) \<Longrightarrow> phased (statusOf i (fst st)) (patches i (effectsOf xs)) \<Longrightarrow>
   successively lifeStep (statusOf i (fst st) # lifeTrace i xs st)"
proof (induction xs arbitrary: st)
  case Nil
  then show ?case by (simp add: lifeTrace_Nil)
next
  case (Cons x xs)
  from stepSys_status [OF Cons.prems] stepSys_distinct [OF Cons.prems(1), of x]
    Cons.IH [of "stepSys x st"]
  show ?case
    by (simp add: lifeTrace_Cons)
qed

lemma quiet_step:
  assumes "distinct (map fst (fst st))" and "patches i (effectsOf (x # xs)) = []"
  shows "patches i (effectsOf xs) = []
       \<and> (statusOf i (fst (stepSys x st)) = statusOf i (fst st)
          \<or> statusOf i (fst (stepSys x st)) = None)"
proof (cases x)
  case (Eff e)
  show ?thesis
  proof (cases e)
    case (SetJob j p)
    with assms(2) Eff have "j \<noteq> i" and "patches i (effectsOf xs) = []"
      by (simp_all split: if_splits)
    with Eff SetJob show ?thesis by (simp add: statusOf_setJob)
  next
    case (Ffprobe f)
    with assms(2) Eff show ?thesis by simp
  next
    case (Spawn c a)
    with assms(2) Eff show ?thesis by simp
  next
    case (Unlink f)
    with assms(2) Eff show ?thesis by simp
  qed
next
  case (Tick now)
  from reaper_keeps_status [OF assms(1), of i now "snd st"]
  have "statusOf i (fst (reaper now st)) = statusOf i (fst st)
       \<or> statusOf i (fst (reaper now st)) = None"
    by auto
  with assms(2) Tick show ?thesis by simp
qed

lemma schedule_quiet:
  "distinct (map fst (fst st)) \<Longrightarrow> patches i (effectsOf xs) = [] \<Longrightarrow>
   \<forall>y \<in> set (lifeTrace i xs st). y = statusOf i (fst st) \<or> y = None"
proof (induction xs arbitrary: st)
  case Nil
  then show ?case by (simp add: lifeTrace_Nil)
next
  case (Cons x xs)
  from quiet_step [OF Cons.prems] have q: "patches i (effectsOf xs) = []"
    and nxt: "statusOf i (fst (stepSys x st)) = statusOf i (fst st)
          \<or> statusOf i (fst (stepSys x st)) = None"
    by simp_all
  from Cons.IH [OF stepSys_distinct [OF Cons.prems(1)] q, of x]
  have "\<forall>y \<in> set (lifeTrace i xs (stepSys x st)).
          y = statusOf i (fst (stepSys x st)) \<or> y = None" .
  with nxt show ?case
    unfolding lifeTrace_Cons by (metis set_ConsD)
qed

lemma schedule_terminal:
  "distinct (map fst (fst st)) \<Longrightarrow> phased (statusOf i (fst st)) (patches i (effectsOf xs)) \<Longrightarrow>
   lifeTrace i xs st = pre @ t # post \<Longrightarrow> t = Some Done \<or> t = Some Error \<Longrightarrow>
   \<forall>y \<in> set post. y = t \<or> y = None"
proof (induction xs arbitrary: st pre)
  case Nil
  then show ?case by (simp add: lifeTrace_Nil)
next
  case (Cons x xs)
  note st = stepSys_status [OF Cons.prems(1,2)] and d = stepSys_distinct [OF Cons.prems(1), of x]
  show ?case
  proof (cases pre)
    case Nil
    with Cons.prems(3) have t: "t = statusOf i (fst (stepSys x st))" and post: "post = lifeTrace i xs (stepSys x st)"
      by (simp_all add: lifeTrace_Cons)
    from st t Cons.prems(4) have "patches i (effectsOf xs) = []"
      by (auto dest: phased_terminal)
    from schedule_quiet [OF d this] t post show ?thesis by simp
  next
    case (Cons a pre')
    with Cons.prems(3) have "lifeTrace i xs (stepSys x st) = pre' @ t # post"
      by (simp add: lifeTrace_Cons)
    from Cons.IH [OF d _ this Cons.prems(4)] st show ?thesis by blast
  qed
qed

text \<open>The writes of a handler to its job are phased, from the creation of the job on.\<close>

lemma patches_append: "patches i (a @ b) = patches i a @ patches i b"
  by (induction i a rule: patches.induct) simp_all

lemma patches_publish: "patches i (map (\<lambda>pct. SetJob i (encodingPatch pct)) ps) = map encodingPatch ps"
  by (induction ps) simp_all

lemma patches_feedAll:
  "patches i (feedAll d i l cs) = map encodingPatch (published d l cs)"
  by (simp only: feedAll_published patches_publish)

lemma phased_quiet_prefix:
  "\<forall>p \<in> set ps. status p = None \<Longrightarrow> phased (Some Running) (ps @ rest) = phased (Some Running) rest"
  by (induction ps) simp_all

lemma patches_run:
  "patches i (fst (run cmd args d i out)) = map encodingPatch (published d 0 (fst out))"
  by (simp add: run_def patches_feedAll)

lemma phased_run:
  "phased (Some Running) (patches i (fst (run cmd args d i out)) @ rest) = phased (Some Running) rest"
  unfolding patches_run by (rule phased_quiet_prefix) (simp add: status_encodingPatch)

lemma twoPassEncode_phased:
  fixes wld str jobId inPath outPath targetMB codec audioKbps autoQuality
  defines "R \<equiv> twoPassEncode wld str jobId inPath outPath targetMB codec audioKbps autoQuality"
  shows "(snd R = None \<longrightarrow> phased (Some Queued) (patches jobId (fst R)))
       \<and> (snd R \<noteq> None \<longrightarrow> phased (Some Queued) (patches jobId (fst R) @
              [emptyJob\<lparr>status := Some Error, percent := Some 0, message := Some MsgError,
                        error := snd R\<rparr>]))"
  unfolding R_def twoPassEncode_def Let_def
  by (auto simp: patches_append phased_run emptyJob_def
      phased_run [of jobId _ _ _ _ "[]", simplified]
      split: sum.splits option.splits if_splits)

lemma startJob_phased: "phased None (patches jobId (snd (startJob wld str jobId req)))"
proof (cases "reqFile req")
  case None
  then show ?thesis by (simp add: startJob_def Let_def)
next
  case (Some inPath)
  define outPath where "outPath = pathJoin workDir (''out-'' @ jobId @ ''.mp4'')"
  define R where "R = twoPassEncode wld str jobId inPath outPath (reqTargetMB req)
      (if reqCodec req = Some ''h265'' then ''h265'' else ''h264'') (reqAudioKbps req)
      (if reqAutoQuality req = Some ''off'' then ''off'' else ''on'')"
  define caught where "caught = (case snd R of None \<Rightarrow> []
     | Some f \<Rightarrow> [SetJob jobId (emptyJob\<lparr>status := Some Error, percent := Some 0,
                     message := Some MsgError, error := Some f\<rparr>)])"
  define queued where "queued = emptyJob\<lparr>status := Some Queued, percent := Some 0,
                            message := Some MsgQueued, inputPath := Some inPath,
                            outputPath := Some outPath\<rparr>"
  have eff: "snd (startJob wld str jobId req) = SetJob jobId queued # fst R @ caught @ [Unlink inPath]"
    using Some by (simp add: startJob_def Let_def caught_def R_def queued_def outPath_def)
  note ph = twoPassEncode_phased [of wld str jobId inPath outPath "reqTargetMB req"
      "if reqCodec req = Some ''h265'' then ''h265'' else ''h264''" "reqAudioKbps req"
      "if reqAutoQuality req = Some ''off'' then ''off'' else ''on''", folded R_def]
  have q: "status queued = Some Queued"
    by (simp add: queued_def emptyJob_def)
  have "phased (Some Queued) (patches jobId (fst R) @ patches jobId caught)"
  proof (cases "snd R")
    case None
    with ph show ?thesis by (simp add: caught_def)
  next
    case (Some f)
    with ph show ?thesis by (simp add: caught_def)
  qed
  then show ?thesis
    unfolding eff by (simp add: patches_append q)
qed

lemma status_under_any_schedule:
  assumes "distinct (map fst jobs)" and "map_of jobs jobId = None"
    and "patches jobId (effectsOf xs) = patches jobId (snd (startJob wld str jobId req))"
  shows "successively lifeStep (None # lifeTrace jobId xs (jobs, files))
       \<and> (\<forall>pre t post. lifeTrace jobId xs (jobs, files) = pre @ t # post
              \<and> (t = Some Done \<or> t = Some Error) \<longrightarrow> (\<forall>y \<in> set post. y = t \<or> y = None))"
proof -
  from assms(2) have s0: "statusOf jobId (fst (jobs, files)) = None"
    by (simp add: statusOf_def)
  from assms(1) have d: "distinct (map fst (fst (jobs, files)))"
    by simp
  have ph: "phased (statusOf jobId (fst (jobs, files))) (patches jobId (effectsOf xs))"
    unfolding s0 assms(3) by (rule startJob_phased)
  from schedule_successively [OF d ph] schedule_terminal [OF d ph] s0 show ?thesis
    by (simp del: fst_conv)
qed

section \<open>Properties of the life of a job\<close>

text \<open>
  Claim C4.  The statuses of a job after each effect of its request, from the creation of
  the job on, follow the path
  queued, running, then done or error: every step keeps the status or is an allowed
  transition, a status done or error stays to the end, and when a file was uploaded the
  statuses are \<open>Queued\<close>, then \<open>Running\<close> at least once, then one of \<open>Done\<close> and
  \<open>Error\<close> to the end.  The progress callbacks are among the effects.  The reaper changes
  no status either: a job it keeps has its status, and a job it removes was done or error.
  The same holds under every schedule that interleaves the writes of the job's handler with
  writes to other jobs and ticks of the reaper, for a job with a fresh identifier: each step is
  a step in the life of the job, and after a status done or error every later status is that
  status, or none once the reaper has removed the job.
\<close>

theorem status_path:
  "(let tr = statusTrace jobId (snd (startJob wld str jobId req)) jobs in
      successively statusStep tr
    \<and> (\<forall>i j. i \<le> j \<and> j < length tr \<and> (tr ! i = Some Done \<or> tr ! i = Some Error)
           \<longrightarrow> tr ! j = tr ! i)
    \<and> (reqFile req \<noteq> None \<longrightarrow>
         (\<exists>pre t k. tr = Some Queued # pre @ replicate k (Some t)
            \<and> set pre = {Some Running} \<and> (t = Done \<or> t = Error) \<and> 0 < k)))
   \<and> (distinct (map fst jobs) \<longrightarrow>
        statusOf i (fst (reaper now (jobs, files))) = statusOf i jobs
        \<or> (statusOf i (fst (reaper now (jobs, files))) = None
           \<and> (statusOf i jobs = Some Done \<or> statusOf i jobs = Some Error)))
   \<and> (distinct (map fst jobs) \<and> map_of jobs jobId = None
        \<and> patches jobId (effectsOf xs) = patches jobId (snd (startJob wld str jobId req)) \<longrightarrow>
          successively lifeStep (None # lifeTrace jobId xs (jobs, files))
        \<and> (\<forall>pre t post. lifeTrace jobId xs (jobs, files) = pre @ t # post
                \<and> (t = Some Done \<or> t = Some Error) \<longrightarrow> (\<forall>y \<in> set post. y = t \<or> y = None)))"
proof -
  let ?tr = "statusTrace jobId (snd (startJob wld str jobId req)) jobs"
  have succ: "successively statusStep ?tr"
  proof (cases "reqFile req")
    case None
    then show ?thesis by (simp add: startJob_def Let_def statusTrace_Nil)
  next
    case (Some inPath)
    from startJob_shape [OF this, of jobId wld str jobs] obtain pre t k where
      "?tr = Some Queued # pre @ replicate k (Some t)" "set pre = {Some Running}" "t = Done \<or> t = Error"
      by blast
    then show ?thesis by (simp only: path_successively)
  qed
  have pers: "\<forall>i j. i \<le> j \<and> j < length ?tr \<and> (?tr ! i = Some Done \<or> ?tr ! i = Some Error)
           \<longrightarrow> ?tr ! j = ?tr ! i"
    using terminal_persists [OF succ] by blast
  have shape: "reqFile req \<noteq> None \<longrightarrow>
         (\<exists>pre t k. ?tr = Some Queued # pre @ replicate k (Some t)
            \<and> set pre = {Some Running} \<and> (t = Done \<or> t = Error) \<and> 0 < k)"
    using startJob_shape [of req _ jobId wld str jobs] by (cases "reqFile req") simp_all
  have reap: "distinct (map fst jobs) \<longrightarrow>
        statusOf i (fst (reaper now (jobs, files))) = statusOf i jobs
        \<or> (statusOf i (fst (reaper now (jobs, files))) = None
           \<and> (statusOf i jobs = Some Done \<or> statusOf i jobs = Some Error))"
    using reaper_keeps_status [of jobs i now files] by blast
  have sched: "distinct (map fst jobs) \<and> map_of jobs jobId = None
        \<and> patches jobId (effectsOf xs) = patches jobId (snd (startJob wld str jobId req)) \<longrightarrow>
          successively lifeStep (None # lifeTrace jobId xs (jobs, files))
        \<and> (\<forall>pre t post. lifeTrace jobId xs (jobs, files) = pre @ t # post
                \<and> (t = Some Done \<or> t = Some Error) \<longrightarrow> (\<forall>y \<in> set post. y = t \<or> y = None))"
    using status_under_any_schedule [of jobs jobId xs wld str req files] by blast
  from succ pers shape reap sched show ?thesis
    unfolding Let_def by blast
qed

lemma parseDurationSeconds_unusable:
  assumes "durationField probe = None
         \<or> (\<exists>v. durationField probe = Some v
               \<and> (Number str v = NaN \<or> (\<exists>x. Number str v = Fin x \<and> x \<le> 0)))"
  shows "parseDurationSeconds str probe = 0"
  using assms
  by (auto simp: parseDurationSeconds_def Let_def Number_def split: option.splits jsnum.splits)

text \<open>
  Claim C8.  When the probe succeeds and its container-level duration is absent, converts to
  \<^verbatim>\<open>NaN\<close>, or converts to a number that is not positive, the job goes from running to
  error with the failure \<open>UnusableDuration\<close>: the effects are the queued patch, the running
  patch, the probe, the error patch and the removal of the input, whatever the target size,
  codec, audio bitrate and auto-quality are, and no process is spawned.
\<close>

theorem unusable_duration_fails_fast:
  assumes "reqFile req = Some inPath" and "probeOutcome wld = Inr probe"
    and "durationField probe = None
         \<or> (\<exists>v. durationField probe = Some v
               \<and> (Number str v = NaN \<or> (\<exists>x. Number str v = Fin x \<and> x \<le> 0)))"
  shows "snd (startJob wld str jobId req) =
           [SetJob jobId (emptyJob\<lparr>status := Some Queued, percent := Some 0,
                            message := Some MsgQueued, inputPath := Some inPath,
                            outputPath := Some (pathJoin workDir (''out-'' @ jobId @ ''.mp4''))\<rparr>),
            SetJob jobId (emptyJob\<lparr>status := Some Running, percent := Some 1,
                            message := Some MsgAnalyzing\<rparr>),
            Ffprobe inPath,
            SetJob jobId (emptyJob\<lparr>status := Some Error, percent := Some 0,
                            message := Some MsgError, error := Some UnusableDuration\<rparr>),
            Unlink inPath]
       \<and> statusTrace jobId (snd (startJob wld str jobId req)) jobs
           = [Some Queued, Some Running, Some Running, Some Error, Some Error]
       \<and> (\<forall>cmd args. Spawn cmd args \<notin> set (snd (startJob wld str jobId req)))"
proof -
  have d: "parseDurationSeconds str probe = 0"
    using assms(3) by (rule parseDurationSeconds_unusable)
  have eff: "snd (startJob wld str jobId req) =
           [SetJob jobId (emptyJob\<lparr>status := Some Queued, percent := Some 0,
                            message := Some MsgQueued, inputPath := Some inPath,
                            outputPath := Some (pathJoin workDir (''out-'' @ jobId @ ''.mp4''))\<rparr>),
            SetJob jobId (emptyJob\<lparr>status := Some Running, percent := Some 1,
                            message := Some MsgAnalyzing\<rparr>),
            Ffprobe inPath,
            SetJob jobId (emptyJob\<lparr>status := Some Error, percent := Some 0,
                            message := Some MsgError, error := Some UnusableDuration\<rparr>),
            Unlink inPath]"
    using assms(1,2) d by (simp add: startJob_def twoPassEncode_def Let_def)
  have tr: "statusTrace jobId (snd (startJob wld str jobId req)) jobs
           = [Some Queued, Some Running, Some Running, Some Error, Some Error]"
    unfolding eff
    by (simp add: statusTrace_Cons statusTrace_Nil statusOf_setJob orElse_def emptyJob_def)
  have "\<forall>cmd args. Spawn cmd args \<notin> set (snd (startJob wld str jobId req))"
    unfolding eff by simp
  with eff tr show ?thesis by blast
qed

section \<open>The sample job\<close>

lemma sample_duration: "parseDurationSeconds sampleStr sampleProbe = 100"
  by (simp add: parseDurationSeconds_def durationField_def sampleProbe_def sampleStr_def
      truthy_def Number_def)

lemma sample_pass1:
  "feedAll 100 ''j'' 0 [''frame=1 time=00:00:01.00 '', ''frame=9 time=00:01:40.00 '']
     = [SetJob ''j'' (encodingPatch 1), SetJob ''j'' (encodingPatch 100)]"
  by (simp add: progressParser_def matchAt_def literal_def digits_def isDigit_def elapsed_def
      decimal_def digitVal_def clamp_def encodingPatch_def)

lemma sample_pass2:
  "feedAll 100 ''j'' 0 [''frame=1 time=00:00:10.00 ''] = [SetJob ''j'' (encodingPatch 10)]"
  by (simp add: progressParser_def matchAt_def literal_def digits_def isDigit_def elapsed_def
      decimal_def digitVal_def clamp_def encodingPatch_def)

lemma sample_effects:
  "snd (startJob sampleWorld sampleStr ''j'' sampleReq) =
     (let inPath = ''/tmp/navine/uploads/f''; outPath = ''/tmp/navine/out-j.mp4'';
          pl = makePlan sampleProbe 100 ''j'' 499 ''h264'' 128 ''on''
      in [SetJob ''j'' (emptyJob\<lparr>status := Some Queued, percent := Some 0,
             message := Some MsgQueued, inputPath := Some inPath, outputPath := Some outPath\<rparr>),
          SetJob ''j'' (emptyJob\<lparr>status := Some Running, percent := Some 1,
             message := Some MsgAnalyzing\<rparr>),
          Ffprobe inPath,
          SetJob ''j'' (emptyJob\<lparr>message := Some MsgPass1, percent := Some 2\<rparr>),
          Spawn ''ffmpeg'' (p1Args pl inPath),
          SetJob ''j'' (encodingPatch 1),
          SetJob ''j'' (encodingPatch 100),
          SetJob ''j'' (emptyJob\<lparr>message := Some MsgPass2, percent := Some 50\<rparr>),
          Spawn ''ffmpeg'' (p2Args pl inPath outPath 128),
          SetJob ''j'' (encodingPatch 10),
          SetJob ''j'' (emptyJob\<lparr>status := Some Done, percent := Some 100,
             message := Some MsgDone, outputBytes := Some 1000\<rparr>),
          Unlink (planPasslog pl @ ''-0.log''),
          Unlink (planPasslog pl @ ''-0.log.mbtree''),
          Unlink inPath])"
  by (simp add: startJob_def twoPassEncode_def run_def sampleWorld_def sampleReq_def Let_def
      sample_duration sample_pass1 sample_pass2 pathJoin_def workDir_def del: feedAll.simps)

lemma percentTrace_Nil: "percentTrace i [] jobs = []"
  by (simp add: percentTrace_def)

lemma percentTrace_Cons:
  "percentTrace i (e # es) jobs = percentOf i (exec e jobs) # percentTrace i es (exec e jobs)"
  by (simp add: percentTrace_def)

lemma sample_statuses:
  "statusTrace ''j'' (snd (startJob sampleWorld sampleStr ''j'' sampleReq)) [] =
     [Some Queued, Some Running, Some Running, Some Running, Some Running,
      Some Running, Some Running, Some Running, Some Running, Some Running,
      Some Done, Some Done, Some Done, Some Done]"
  unfolding sample_effects Let_def
  by (simp add: statusTrace_Cons statusTrace_Nil statusOf_setJob orElse_def emptyJob_def
      encodingPatch_def)

lemma sample_percents:
  "percentTrace ''j'' (snd (startJob sampleWorld sampleStr ''j'' sampleReq)) [] =
     [Some 0, Some 1, Some 1, Some 2, Some 2, Some 1, Some 100, Some 50,
      Some 50, Some 10, Some 100, Some 100, Some 100, Some 100]"
  unfolding sample_effects Let_def
  by (simp add: percentTrace_Cons percentTrace_Nil percentOf_setJob orElse_def emptyJob_def
      encodingPatch_def)

text \<open>
  Claim C2.  The percent of a job never decreases while its status is running.  The code
  does not keep this: in the sample job the percent is 2 when pass 1 starts, the first
  chunk of pass 1 publishes 1, the last chunk of pass 1 publishes 100, the orchestrator then
  sets 50, and the first chunk of pass 2 publishes 10, all while the status is running.
\<close>

theorem percent_decreases_while_running:
  "statusTrace ''j'' (snd (startJob sampleWorld sampleStr ''j'' sampleReq)) [] =
     [Some Queued, Some Running, Some Running, Some Running, Some Running,
      Some Running, Some Running, Some Running, Some Running, Some Running,
      Some Done, Some Done, Some Done, Some Done]
   \<and> percentTrace ''j'' (snd (startJob sampleWorld sampleStr ''j'' sampleReq)) [] =
     [Some 0, Some 1, Some 1, Some 2, Some 2, Some 1, Some 100, Some 50,
      Some 50, Some 10, Some 100, Some 100, Some 100, Some 100]
   \<and> \<not> sorted (map the (take 10 (percentTrace ''j''
            (snd (startJob sampleWorld sampleStr ''j'' sampleReq)) [])))"
  by (simp add: sample_statuses sample_percents)

lemma effectsOf_append: "effectsOf (a @ b) = effectsOf a @ effectsOf b"
  by (induction a rule: effectsOf.induct) simp_all

lemma effectsOf_Eff: "effectsOf (map Eff es) = es"
  by (induction es) simp_all

lemma sampleSchedule_effects:
  "effectsOf sampleSchedule = snd (startJob sampleWorld sampleStr ''j'' sampleReq)"
  by (simp add: sampleSchedule_def Let_def effectsOf_append effectsOf_Eff)

lemma sampleSchedule_trace:
  "lifeTrace ''j'' sampleSchedule ([], {''/tmp/navine/out-j.mp4''}) =
     [Some Queued, Some Running, Some Running, Some Running, Some Running, Some Running,
      Some Running, Some Running, Some Running, Some Running, Some Running,
      Some Done, Some Done, Some Done, Some Done, None]"
  unfolding sampleSchedule_def sample_effects Let_def
  by (simp add: lifeTrace_Cons lifeTrace_Nil setJob_def spread_def orElse_def emptyJob_def
      encodingPatch_def reaper_single purged_def anchor_def statusOf_def)

theorem status_path_witness:
  "reqFile sampleReq \<noteq> None \<and> distinct (map fst ([] :: registry))
   \<and> map_of ([] :: registry) ''j'' = None
   \<and> patches ''j'' (effectsOf sampleSchedule)
       = patches ''j'' (snd (startJob sampleWorld sampleStr ''j'' sampleReq))
   \<and> statusTrace ''j'' (snd (startJob sampleWorld sampleStr ''j'' sampleReq)) [] =
     [Some Queued, Some Running, Some Running, Some Running, Some Running,
      Some Running, Some Running, Some Running, Some Running, Some Running,
      Some Done, Some Done, Some Done, Some Done]
   \<and> successively statusStep
     [Some Queued, Some Running, Some Running, Some Running, Some Running,
      Some Running, Some Running, Some Running, Some Running, Some Running,
      Some Done, Some Done, Some Done, Some Done]
   \<and> statusOf ''j'' (fst (reaper 0 ([], {}))) = statusOf ''j'' []
   \<and> lifeTrace ''j'' sampleSchedule ([], {''/tmp/navine/out-j.mp4''}) =
     [Some Queued, Some Running, Some Running, Some Running, Some Running, Some Running,
      Some Running, Some Running, Some Running, Some Running, Some Running,
      Some Done, Some Done, Some Done, Some Done, None]
   \<and> successively lifeStep
     [None, Some Queued, Some Running, Some Running, Some Running, Some Running, Some Running,
      Some Running, Some Running, Some Running, Some Running, Some Running,
      Some Done, Some Done, Some Done, Some Done, None]"
proof -
  have r: "reqFile sampleReq \<noteq> None"
    by (simp add: sampleReq_def)
  have p: "patches ''j'' (effectsOf sampleSchedule)
       = patches ''j'' (snd (startJob sampleWorld sampleStr ''j'' sampleReq))"
    by (simp only: sampleSchedule_effects)
  have d: "distinct (map fst ([] :: registry))" and m: "map_of ([] :: registry) ''j'' = None"
    by simp_all
  note sp = status_path [of "''j''" sampleWorld sampleStr sampleReq "[]" "''j''" 0
      "{''/tmp/navine/out-j.mp4''}" sampleSchedule]
  from sp have "successively statusStep
     (statusTrace ''j'' (snd (startJob sampleWorld sampleStr ''j'' sampleReq)) [])"
    unfolding Let_def by (rule conjunct1 [OF conjunct1])
  then have a: "successively statusStep
     [Some Queued, Some Running, Some Running, Some Running, Some Running,
      Some Running, Some Running, Some Running, Some Running, Some Running,
      Some Done, Some Done, Some Done, Some Done]"
    by (simp only: sample_statuses)
  from sp have "distinct (map fst ([] :: registry)) \<and> map_of ([] :: registry) ''j'' = None
        \<and> patches ''j'' (effectsOf sampleSchedule)
            = patches ''j'' (snd (startJob sampleWorld sampleStr ''j'' sampleReq)) \<longrightarrow>
          successively lifeStep
            (None # lifeTrace ''j'' sampleSchedule ([], {''/tmp/navine/out-j.mp4''}))"
    by blast
  with d m p have "successively lifeStep
            (None # lifeTrace ''j'' sampleSchedule ([], {''/tmp/navine/out-j.mp4''}))"
    by blast
  then have b: "successively lifeStep
     [None, Some Queued, Some Running, Some Running, Some Running, Some Running, Some Running,
      Some Running, Some Running, Some Running, Some Running, Some Running,
      Some Done, Some Done, Some Done, Some Done, None]"
    by (simp only: sampleSchedule_trace)
  have k: "statusOf ''j'' (fst (reaper 0 ([], {}))) = statusOf ''j'' []"
    by (simp add: reaper_def)
  from r d m p a b k sample_statuses sampleSchedule_trace show ?thesis
    by blast
qed

theorem unusable_duration_fails_fast_witness:
  "reqFile sampleReq = Some ''/tmp/navine/uploads/f''
   \<and> probeOutcome (sampleWorld\<lparr>probeOutcome := Inr (sampleProbe\<lparr>format := Some \<lparr>duration = Some (JStr ''N/A'')\<rparr>\<rparr>)\<rparr>)
        = Inr (sampleProbe\<lparr>format := Some \<lparr>duration = Some (JStr ''N/A'')\<rparr>\<rparr>)
   \<and> durationField (sampleProbe\<lparr>format := Some \<lparr>duration = Some (JStr ''N/A'')\<rparr>\<rparr>) = Some (JStr ''N/A'')
   \<and> Number sampleStr (JStr ''N/A'') = NaN
   \<and> statusTrace ''j'' (snd (startJob
         (sampleWorld\<lparr>probeOutcome := Inr (sampleProbe\<lparr>format := Some \<lparr>duration = Some (JStr ''N/A'')\<rparr>\<rparr>)\<rparr>)
         sampleStr ''j'' sampleReq)) []
       = [Some Queued, Some Running, Some Running, Some Error, Some Error]"
proof -
  let ?probe = "sampleProbe\<lparr>format := Some \<lparr>duration = Some (JStr ''N/A'')\<rparr>\<rparr>"
  let ?wld = "sampleWorld\<lparr>probeOutcome := Inr ?probe\<rparr>"
  have r: "reqFile sampleReq = Some ''/tmp/navine/uploads/f''"
    by (simp add: sampleReq_def)
  have p: "probeOutcome ?wld = Inr ?probe"
    by simp
  have f: "durationField ?probe = Some (JStr ''N/A'')"
    by (simp add: durationField_def)
  have n: "Number sampleStr (JStr ''N/A'') = NaN"
    by (simp add: Number_def sampleStr_def)
  from f n have u: "durationField ?probe = None
         \<or> (\<exists>v. durationField ?probe = Some v
               \<and> (Number sampleStr v = NaN \<or> (\<exists>x. Number sampleStr v = Fin x \<and> x \<le> 0)))"
    by blast
  from unusable_duration_fails_fast [OF r p u, of "''j''" "[]"] r p f n show ?thesis
    by blast
qed

section \<open>The retention window\<close>

text \<open>
  Claim C3.  A terminal job is purged 30 minutes after it became terminal and is kept,
  with its output, while it is younger.  The code does not keep this: the reaper stamps
  \<^verbatim>\<open>createdAt\<close> on its first visit, whatever the status.  The job below is running at
  the ticks from minute 5 to minute 35, so it is stamped at minute 5; it becomes done between
  minute 35 and minute 40, and the tick at minute 40 removes it and deletes its output.
\<close>

theorem reaper_purges_job_just_done:
  "(let out = ''/tmp/navine/out-j.mp4'';
        jobs0 = setJob ''j'' (emptyJob\<lparr>status := Some Running, percent := Some 1,
                                message := Some MsgAnalyzing\<rparr>)
                 (setJob ''j'' (emptyJob\<lparr>status := Some Queued, percent := Some 0,
                                  message := Some MsgQueued,
                                  inputPath := Some ''/tmp/navine/uploads/f'',
                                  outputPath := Some out\<rparr>) []);
        st1 = foldl (\<lambda>st now. reaper now st) (jobs0, {out})
                [5 * 60 * 1000, 10 * 60 * 1000, 15 * 60 * 1000, 20 * 60 * 1000,
                 25 * 60 * 1000, 30 * 60 * 1000, 35 * 60 * 1000];
        jobs2 = setJob ''j'' (emptyJob\<lparr>status := Some Done, percent := Some 100,
                                message := Some MsgDone, outputBytes := Some 1000\<rparr>) (fst st1);
        st3 = reaper (40 * 60 * 1000) (jobs2, snd st1)
    in statusOf ''j'' (fst st1) = Some Running \<and> out \<in> snd st1
       \<and> statusOf ''j'' jobs2 = Some Done
       \<and> map_option createdAt (map_of jobs2 ''j'') = Some (Some (5 * 60 * 1000))
       \<and> st3 = ([], {}))"
proof -
  define out where "out = ''/tmp/navine/out-j.mp4''"
  define running where "running =
     \<lparr>status = Some Running, percent = Some 1, message = Some MsgAnalyzing,
      inputPath = Some ''/tmp/navine/uploads/f'', outputPath = Some out,
      outputBytes = None, error = None, createdAt = None\<rparr>"
  define jobs0 where "jobs0 = setJob ''j'' (emptyJob\<lparr>status := Some Running, percent := Some 1,
                                message := Some MsgAnalyzing\<rparr>)
                 (setJob ''j'' (emptyJob\<lparr>status := Some Queued, percent := Some 0,
                                  message := Some MsgQueued,
                                  inputPath := Some ''/tmp/navine/uploads/f'',
                                  outputPath := Some out\<rparr>) [])"
  have j0: "jobs0 = [(''j'', running)]"
    by (simp add: jobs0_def running_def setJob_def spread_def orElse_def emptyJob_def)
  have first: "reaper (5 * 60 * 1000) (jobs0, {out})
                 = ([(''j'', running\<lparr>createdAt := Some 300000\<rparr>)], {out})"
    by (simp add: j0 reaper_single purged_def anchor_def running_def)
  have later: "reaper now ([(''j'', running\<lparr>createdAt := Some 300000\<rparr>)], {out})
                 = ([(''j'', running\<lparr>createdAt := Some 300000\<rparr>)], {out})" for now
    by (simp add: reaper_single purged_def anchor_def running_def)
  define st1 where "st1 = foldl (\<lambda>st now. reaper now st) (jobs0, {out})
                [5 * 60 * 1000, 10 * 60 * 1000, 15 * 60 * 1000, 20 * 60 * 1000,
                 25 * 60 * 1000, 30 * 60 * 1000, 35 * 60 * 1000]"
  have s1: "st1 = ([(''j'', running\<lparr>createdAt := Some 300000\<rparr>)], {out})"
    unfolding st1_def by (simp only: foldl.simps first later)
  define jobs2 where "jobs2 = setJob ''j'' (emptyJob\<lparr>status := Some Done, percent := Some 100,
                                message := Some MsgDone, outputBytes := Some 1000\<rparr>) (fst st1)"
  have j2: "jobs2 = [(''j'', running\<lparr>status := Some Done, percent := Some 100,
                        message := Some MsgDone, outputBytes := Some 1000,
                        createdAt := Some 300000\<rparr>)]"
    by (simp add: jobs2_def s1 running_def setJob_def spread_def orElse_def emptyJob_def)
  have last: "reaper (40 * 60 * 1000) (jobs2, snd st1) = ([], {})"
    by (simp add: j2 s1 reaper_single purged_def anchor_def running_def out_def)
  have "statusOf ''j'' (fst st1) = Some Running \<and> out \<in> snd st1
       \<and> statusOf ''j'' jobs2 = Some Done
       \<and> map_option createdAt (map_of jobs2 ''j'') = Some (Some (5 * 60 * 1000))"
    by (simp add: s1 j2 statusOf_def running_def)
  with last show ?thesis
    unfolding Let_def out_def [symmetric] jobs0_def [symmetric] st1_def [symmetric]
      jobs2_def [symmetric]
    by blast
qed

end
